theory Spec2Isabelle
  imports Main "HOL-Library.Sublist"
begin

section \<open>Python string primitives used by param\_util.py\<close>

text \<open>
  Python 2 byte strings are modelled as \<open>string\<close> (a list of 8-bit characters).
  Each primitive below is the \<open>str\<close> method of the same name, restricted to the
  argument shapes that param\_util.py uses.
\<close>

definition startswith :: "string \<Rightarrow> string \<Rightarrow> bool" where
  "startswith s p = prefix p s"

definition endswith :: "string \<Rightarrow> string \<Rightarrow> bool" where
  "endswith s p = suffix p s"

text \<open>\<open>s.rstrip(chars)\<close> and \<open>s.lstrip(chars)\<close>: strip any of the given characters.\<close>

definition rstrip :: "string \<Rightarrow> string \<Rightarrow> string" where
  "rstrip chars s = rev (dropWhile (\<lambda>c. c \<in> set chars) (rev s))"

definition lstrip :: "string \<Rightarrow> string \<Rightarrow> string" where
  "lstrip chars s = dropWhile (\<lambda>c. c \<in> set chars) s"

text \<open>\<open>sub in s\<close>: \<open>sub\<close> occurs in \<open>s\<close> as a contiguous substring.\<close>

fun contains :: "string \<Rightarrow> string \<Rightarrow> bool" where
  "contains sub [] = (sub = [])"
| "contains sub (c # cs) = (prefix sub (c # cs) \<or> contains sub cs)"

text \<open>\<open>s.split(sep)\<close> for a one-character separator: never returns the empty list.\<close>

fun split_char :: "char \<Rightarrow> string \<Rightarrow> string list" where
  "split_char d [] = [[]]"
| "split_char d (c # cs) =
     (if c = d then [] # split_char d cs
      else (c # hd (split_char d cs)) # tl (split_char d cs))"

text \<open>\<open>sep.join(xs)\<close>.\<close>

fun join_str :: "string \<Rightarrow> string list \<Rightarrow> string" where
  "join_str sep [] = []"
| "join_str sep [x] = x"
| "join_str sep (x # y # ys) = x @ sep @ join_str sep (y # ys)"

text \<open>
  \<open>s.find(sep)\<close> as a split: the text before the first occurrence of \<open>sep\<close> and the
  text after it, or \<open>None\<close> when \<open>sep\<close> does not occur.
\<close>

fun find_sep :: "string \<Rightarrow> string \<Rightarrow> (string \<times> string) option" where
  "find_sep sep [] = (if sep = [] then Some ([], []) else None)"
| "find_sep sep (c # cs) =
     (if prefix sep (c # cs) then Some ([], drop (length sep) (c # cs))
      else map_option (\<lambda>(a, b). (c # a, b)) (find_sep sep cs))"

text \<open>\<open>s.replace(old, new, 1)\<close>: only the first occurrence is replaced.\<close>

definition replace_first :: "string \<Rightarrow> string \<Rightarrow> string \<Rightarrow> string" where
  "replace_first old new s =
     (case find_sep old s of None \<Rightarrow> s | Some (a, b) \<Rightarrow> a @ new @ b)"

definition ascii_lowercase :: string where
  "ascii_lowercase = ''abcdefghijklmnopqrstuvwxyz''"

definition ascii_uppercase :: string where
  "ascii_uppercase = ''ABCDEFGHIJKLMNOPQRSTUVWXYZ''"

definition digits :: string where
  "digits = ''0123456789''"

text \<open>\<open>s.lower()\<close> on ASCII letters.\<close>

definition lower_char :: "char \<Rightarrow> char" where
  "lower_char c =
     (case map_of (zip ascii_uppercase ascii_lowercase) c of Some l \<Rightarrow> l | None \<Rightarrow> c)"

definition lower :: "string \<Rightarrow> string" where
  "lower s = map lower_char s"

section \<open>The posixpath functions used by param\_util.py\<close>

text \<open>
  \<open>i = p.rfind('/') + 1\<close>: the index just after the last slash, 0 when there is none.
\<close>

definition rfind_slash_succ :: "string \<Rightarrow> nat" where
  "rfind_slash_succ p = length p - length (takeWhile (\<lambda>c. c \<noteq> CHR ''/'') (rev p))"

definition all_slashes :: "string \<Rightarrow> bool" where
  "all_slashes h = (h = replicate (length h) CHR ''/'')"

text \<open>\<open>os.path.dirname\<close>, \<open>os.path.basename\<close> and \<open>os.path.split\<close>.\<close>

definition os_path_dirname :: "string \<Rightarrow> string" where
  "os_path_dirname p =
     (let head = take (rfind_slash_succ p) p
      in if head \<noteq> [] \<and> \<not> all_slashes head then rstrip ''/'' head else head)"

definition os_path_basename :: "string \<Rightarrow> string" where
  "os_path_basename p = drop (rfind_slash_succ p) p"

definition os_path_split :: "string \<Rightarrow> string \<times> string" where
  "os_path_split p = (os_path_dirname p, os_path_basename p)"

text \<open>\<open>os.path.join(a, b)\<close> with two string arguments, and \<open>os.path.isabs\<close>.\<close>

definition os_path_join :: "string \<Rightarrow> string \<Rightarrow> string" where
  "os_path_join a b =
     (if startswith b ''/'' then b
      else if a = [] \<or> endswith a ''/'' then a @ b
      else a @ ''/'' @ b)"

definition os_path_isabs :: "string \<Rightarrow> bool" where
  "os_path_isabs p = startswith p ''/''"

text \<open>
  \<open>os.path.normpath\<close>: POSIX allows one or two initial slashes and treats three or
  more as one. The loop appends to and pops from the end of \<open>new_comps\<close>.
\<close>

definition initial_slashes :: "string \<Rightarrow> nat" where
  "initial_slashes p =
     (if startswith p ''/''
      then (if startswith p ''//'' \<and> \<not> startswith p ''///'' then 2 else 1)
      else 0)"

fun normpath_loop :: "nat \<Rightarrow> string list \<Rightarrow> string list \<Rightarrow> string list" where
  "normpath_loop ini new_comps [] = new_comps"
| "normpath_loop ini new_comps (part # comps) =
     (if part = [] \<or> part = ''.'' then normpath_loop ini new_comps comps
      else if part \<noteq> ''..'' \<or> (ini = 0 \<and> new_comps = [])
              \<or> (new_comps \<noteq> [] \<and> last new_comps = ''..'')
        then normpath_loop ini (new_comps @ [part]) comps
      else if new_comps \<noteq> [] then normpath_loop ini (butlast new_comps) comps
      else normpath_loop ini new_comps comps)"

definition os_path_normpath :: "string \<Rightarrow> string" where
  "os_path_normpath p =
     (if p = [] then ''.''
      else let ini = initial_slashes p;
               comps = normpath_loop ini [] (split_char CHR ''/'' p);
               joined = join_str ''/'' comps;
               res = (if ini \<noteq> 0 then replicate ini CHR ''/'' @ joined else joined)
           in if res = [] then ''.'' else res)"

text \<open>
  The process environment that the module reads: \<open>os.getenv('HOME')\<close> (\<open>None\<close> when
  the variable is unset) and \<open>os.getcwd()\<close>.
\<close>

record os_env =
  HOME :: "string option"
  getcwd :: string

definition os_path_abspath :: "os_env \<Rightarrow> string \<Rightarrow> string" where
  "os_path_abspath env p =
     os_path_normpath (if os_path_isabs p then p else os_path_join (getcwd env) p)"

section \<open>Regular-expression substitutions of the docker path rewriter\<close>

text \<open>
  The four patterns of \<open>docker_rewrites\<close> are a quoted literal, or \<open>^\<close> followed by a
  quoted literal. \<open>re.sub\<close> replaces every non-overlapping match, scanning from the
  left; a pattern anchored with \<open>^\<close> (no MULTILINE flag) matches at most once, at index 0.
\<close>

datatype pattern = Literal string | Anchored string

function re_sub_literal :: "string \<Rightarrow> string \<Rightarrow> string \<Rightarrow> string" where
  "re_sub_literal pat repl [] = []"
| "re_sub_literal pat repl (c # cs) =
     (if pat \<noteq> [] \<and> prefix pat (c # cs)
      then repl @ re_sub_literal pat repl (drop (length pat) (c # cs))
      else c # re_sub_literal pat repl cs)"
  by pat_completeness auto
termination
  by (relation "measure (\<lambda>(pat, repl, s). length s)") auto

fun re_sub :: "pattern \<Rightarrow> string \<Rightarrow> string \<Rightarrow> string" where
  "re_sub (Literal pat) repl s = re_sub_literal pat repl s"
| "re_sub (Anchored pat) repl s =
     (if startswith s pat then repl @ drop (length pat) s else s)"

section \<open>Errors\<close>

text \<open>
  Every \<open>raise\<close> of the module is a value. \<open>ValueError\<close> carries which message was
  raised, with the values interpolated into it.
\<close>

datatype reason =
    InvalidParam string string
  | LabelLength string string
  | LabelInvalid string string
  | LabelReserved string
  | PrefixNotSupported string
  | SquareBracket string
  | QuestionMark string
  | PathWildcard string
  | RecursiveWildcard string
  | DotFilename string
  | NotRecursiveNoFilename string
  | LoggingWildcard string
  | UnrecognizedColumn string
  | NoTasks string
  | UnparsableAge string
  | EmptySeparator
  | InvalidLiteral string

datatype error =
    ValueError reason
  | IndexError
  | TypeError
  | AttributeError
  | StopIteration
  | OverflowError

section \<open>Data model\<close>

datatype file_provider = P_LOCAL | P_GCS

text \<open>
  \<open>UriParts\<close> is a \<open>str\<close> subclass: its string value is \<open>path + basename\<close>
  (\<open>str.__new__(cls, path + basename)\<close>), given by \<open>uri_str\<close>.
\<close>

record UriParts =
  path :: string
  basename :: string

definition uri_str :: "UriParts \<Rightarrow> string" where
  "uri_str u = path u @ basename u"

definition directory_fmt :: "string \<Rightarrow> string" where
  "directory_fmt directory = rstrip ''/'' directory @ ''/''"

datatype param_class = FileParamClass | InputFileParamClass | OutputFileParamClass

record FileParamUtil =
  param_class :: param_class
  auto_prefix :: string
  auto_index :: nat
  relative_path :: string

record EnvParam =
  env_name :: string
  env_value :: "string option"

record LabelParam =
  label_name :: string
  label_value :: "string option"

record FileParam =
  fp_name :: string
  fp_value :: "string option"
  fp_docker_path :: "string option"
  fp_uri :: "UriParts option"
  fp_recursive :: bool
  fp_file_provider :: "file_provider option"

record LoggingParam =
  log_uri :: "UriParts option"
  log_file_provider :: "file_provider option"

section \<open>Provider detection and path validation\<close>

text \<open>
  \<open>re.match(r'^([A-Za-z][A-Za-z0-9+.-]{0,29})://', uri)\<close>, returning group 1. Neither
  \<open>:\<close> nor \<open>/\<close> is a scheme character, so the group can only be the whole leading run
  of scheme characters.
\<close>

definition scheme_chars :: string where
  "scheme_chars = ascii_uppercase @ ascii_lowercase @ digits @ ''+.-''"

definition match_scheme :: "string \<Rightarrow> string option" where
  "match_scheme uri =
     (let tok = takeWhile (\<lambda>c. c \<in> set scheme_chars) uri
      in if tok \<noteq> [] \<and> hd tok \<in> set (ascii_uppercase @ ascii_lowercase)
            \<and> length tok \<le> 30 \<and> startswith (drop (length tok) uri) ''://''
         then Some tok else None)"

definition providers :: "(string \<times> file_provider) list" where
  "providers = [(''gs'', P_GCS), (''file'', P_LOCAL)]"

definition parse_file_provider :: "string \<Rightarrow> error + file_provider" where
  "parse_file_provider uri =
     (let pre = (case match_scheme uri of Some g \<Rightarrow> lower g | None \<Rightarrow> ''file'')
      in case map_of providers pre of
           Some p \<Rightarrow> Inr p
         | None \<Rightarrow> Inl (ValueError (PrefixNotSupported pre)))"

definition validate_paths_or_fail :: "string \<Rightarrow> bool \<Rightarrow> error + unit" where
  "validate_paths_or_fail uri recursive =
     (let (pth, filename) = os_path_split uri
      in if CHR ''['' \<in> set uri \<or> CHR '']'' \<in> set uri then Inl (ValueError (SquareBracket uri))
         else if CHR ''?'' \<in> set uri then Inl (ValueError (QuestionMark uri))
         else if CHR ''*'' \<in> set pth then Inl (ValueError (PathWildcard uri))
         else if contains ''**'' filename then Inl (ValueError (RecursiveWildcard uri))
         else if filename = ''..'' \<or> filename = ''.'' then Inl (ValueError (DotFilename uri))
         else if \<not> recursive \<and> filename = [] then
           Inl (ValueError (NotRecursiveNoFilename uri))
         else Inr ())"

section \<open>URI rewriting\<close>

text \<open>
  The loop over \<open>prefix_replacements\<close> in \<open>_local_uri_rewriter\<close>. The replacement for
  \<open>~/\<close> is \<open>os.getenv('HOME')\<close>; when it is \<open>None\<close>, \<open>os.path.join(None, b)\<close> returns
  \<open>b\<close> if \<open>b\<close> starts with a slash and otherwise raises on \<open>None.endswith\<close>.
\<close>

definition prefix_replacements :: "os_env \<Rightarrow> (string \<times> string option) list" where
  "prefix_replacements env =
     [(''file:///'', Some ''/''), (''~/'', HOME env), (''./'', Some []), (''file:/'', Some ''/'')]"

fun apply_prefix_replacements :: "(string \<times> string option) list \<Rightarrow> string \<Rightarrow> error + string" where
  "apply_prefix_replacements [] normed_path = Inr normed_path"
| "apply_prefix_replacements ((pre, replacement) # rest) normed_path =
     (if startswith normed_path pre then
        (let remainder = drop (length pre) normed_path
         in case replacement of
              Some r \<Rightarrow> apply_prefix_replacements rest (os_path_join r remainder)
            | None \<Rightarrow>
                if startswith remainder ''/'' then apply_prefix_replacements rest remainder
                else Inl AttributeError)
      else apply_prefix_replacements rest normed_path)"

definition docker_rewrites :: "(pattern \<times> string) list" where
  "docker_rewrites =
     [(Literal ''/..'', ''/_dotdot_''), (Anchored ''..'', ''_dotdot_''),
      (Anchored ''~/'', ''_home_/''), (Anchored ''file:/'', [])]"

text \<open>\<open>_local_uri_rewriter\<close> returns \<open>(normed_uri, docker_path)\<close>.\<close>

definition local_uri_rewriter :: "os_env \<Rightarrow> string \<Rightarrow> error + (string \<times> string)" where
  "local_uri_rewriter env raw_uri =
     (let (raw_path, filename) = os_path_split raw_uri
      in case apply_prefix_replacements (prefix_replacements env) raw_path of
           Inl e \<Rightarrow> Inl e
         | Inr normed_path \<Rightarrow>
             (let normed_uri = directory_fmt (os_path_abspath env normed_path);
                  normed_uri = os_path_join normed_uri filename;
                  docker_path = os_path_normpath raw_path;
                  docker_path = foldl (\<lambda>d (pat, repl). re_sub pat repl d) docker_path docker_rewrites;
                  docker_path = lstrip ''./'' docker_path;
                  docker_path = directory_fmt (''file/'' @ docker_path) @ filename
              in Inr (normed_uri, docker_path)))"

definition gcs_uri_rewriter :: "string \<Rightarrow> string \<times> string" where
  "gcs_uri_rewriter raw_uri = (raw_uri, replace_first ''gs://'' ''gs/'' raw_uri)"

text \<open>
  \<open>rewrite_uris\<close>: the final \<open>else: raise ValueError\<close> of the source is for a provider
  outside \<open>FILE_PROVIDERS\<close>, which the type \<open>file_provider\<close> excludes.
\<close>

definition rewrite_uris ::
  "os_env \<Rightarrow> FileParamUtil \<Rightarrow> string \<Rightarrow> file_provider \<Rightarrow> error + (string \<times> string)" where
  "rewrite_uris env util raw_uri provider =
     (case (case provider of
              P_GCS \<Rightarrow> Inr (gcs_uri_rewriter raw_uri)
            | P_LOCAL \<Rightarrow> local_uri_rewriter env raw_uri) of
        Inl e \<Rightarrow> Inl e
      | Inr (normalized, docker_path) \<Rightarrow>
          Inr (normalized, os_path_join (relative_path util) docker_path))"

text \<open>\<open>parse_uri\<close> returns \<open>(docker_uri, uri_parts, file_provider)\<close>.\<close>

definition parse_uri ::
  "os_env \<Rightarrow> FileParamUtil \<Rightarrow> string \<Rightarrow> bool \<Rightarrow> error + (string \<times> UriParts \<times> file_provider)" where
  "parse_uri env util raw_uri0 recursive =
     (let raw_uri = (if recursive then directory_fmt raw_uri0 else raw_uri0)
      in case parse_file_provider raw_uri of
           Inl e \<Rightarrow> Inl e
         | Inr provider \<Rightarrow>
             (case validate_paths_or_fail raw_uri recursive of
                Inl e \<Rightarrow> Inl e
              | Inr _ \<Rightarrow>
                  (case rewrite_uris env util raw_uri provider of
                     Inl e \<Rightarrow> Inl e
                   | Inr (u, docker_uri) \<Rightarrow>
                       Inr (docker_uri,
                            \<lparr>path = directory_fmt (os_path_dirname u),
                             basename = os_path_basename u\<rparr>,
                            provider))))"

section \<open>Parameter constructors\<close>

text \<open>
  In a Python regular expression \<open>$\<close> matches at the end of the string and also just
  before a newline that ends the string; the character classes of the two name patterns
  exclude the newline, so the text they must cover is the string without one final newline.
\<close>

definition before_dollar :: "string \<Rightarrow> string" where
  "before_dollar s = (if s \<noteq> [] \<and> last s = CHR 0x0A then butlast s else s)"

text \<open>\<open>re.match(r'^[a-zA-Z_][a-zA-Z0-9_]*$', name)\<close>.\<close>

definition match_param_name :: "string \<Rightarrow> bool" where
  "match_param_name s =
     (let b = before_dollar s
      in b \<noteq> [] \<and> hd b \<in> set (ascii_lowercase @ ascii_uppercase @ ''_'')
         \<and> list_all (\<lambda>c. c \<in> set (ascii_lowercase @ ascii_uppercase @ digits @ ''_'')) (tl b))"

definition validate_param_name :: "string \<Rightarrow> string \<Rightarrow> error + unit" where
  "validate_param_name nm param_type =
     (if \<not> match_param_name nm then Inl (ValueError (InvalidParam param_type nm)) else Inr ())"

text \<open>
  \<open>EnvParam(name, value)\<close>. The name is \<open>None\<close> when a header column is \<open>--env\<close> with no
  name; \<open>re.match\<close> then raises \<open>TypeError\<close>.
\<close>

definition EnvParam_new :: "string option \<Rightarrow> string option \<Rightarrow> error + EnvParam" where
  "EnvParam_new name v =
     (case name of
        None \<Rightarrow> Inl TypeError
      | Some nm \<Rightarrow>
          (case validate_param_name nm ''Environment variable'' of
             Inl e \<Rightarrow> Inl e
           | Inr _ \<Rightarrow> Inr \<lparr>env_name = nm, env_value = v\<rparr>))"

definition RESERVED_LABELS :: "string list" where
  "RESERVED_LABELS = [''job-name'', ''job-id'', ''user-id'', ''task-id'', ''dsub-version'']"

text \<open>\<open>re.match(r'^[a-z]([-_a-z0-9]*)?$', param_value)\<close>.\<close>

definition match_label :: "string \<Rightarrow> bool" where
  "match_label s =
     (let b = before_dollar s
      in b \<noteq> [] \<and> hd b \<in> set ascii_lowercase
         \<and> list_all (\<lambda>c. c \<in> set (''-_'' @ ascii_lowercase @ digits)) (tl b))"

definition check_label_rule :: "string \<Rightarrow> string \<Rightarrow> error + unit" where
  "check_label_rule param_value param_type =
     (if length param_value < 1 \<or> length param_value > 63
        then Inl (ValueError (LabelLength param_type param_value))
      else if \<not> match_label param_value
        then Inl (ValueError (LabelInvalid param_type param_value))
      else Inr ())"

text \<open>
  \<open>LabelParam.validate_label\<close> with \<open>_allow_reserved_keys = False\<close>, the value of the
  class itself; \<open>len(None)\<close> raises \<open>TypeError\<close>. \<open>if value\<close> is false for \<open>None\<close> and for
  the empty string.
\<close>

definition validate_label :: "string option \<Rightarrow> string option \<Rightarrow> error + unit" where
  "validate_label name v =
     (case name of
        None \<Rightarrow> Inl TypeError
      | Some nm \<Rightarrow>
          (case check_label_rule nm ''name'' of
             Inl e \<Rightarrow> Inl e
           | Inr _ \<Rightarrow>
               (case (case v of
                        Some val \<Rightarrow> if val \<noteq> [] then check_label_rule val ''value'' else Inr ()
                      | None \<Rightarrow> Inr ()) of
                  Inl e \<Rightarrow> Inl e
                | Inr _ \<Rightarrow>
                    if nm \<in> set RESERVED_LABELS then Inl (ValueError (LabelReserved nm))
                    else Inr ())))"

definition LabelParam_new :: "string option \<Rightarrow> string option \<Rightarrow> error + LabelParam" where
  "LabelParam_new name v =
     (case validate_label name v of
        Inl e \<Rightarrow> Inl e
      | Inr _ \<Rightarrow>
          (case name of
             None \<Rightarrow> Inl TypeError
           | Some nm \<Rightarrow> Inr \<lparr>label_name = nm, label_value = v\<rparr>))"

text \<open>
  \<open>FileParam\<close>, \<open>InputFileParam\<close> and \<open>OutputFileParam\<close> share one tuple shape; the two
  subclasses validate the name first.
\<close>

definition FileParam_new ::
  "param_class \<Rightarrow> string \<Rightarrow> string option \<Rightarrow> string option \<Rightarrow> UriParts option \<Rightarrow> bool
     \<Rightarrow> file_provider option \<Rightarrow> error + FileParam" where
  "FileParam_new cls nm v dp u r fprov =
     (case (case cls of
              FileParamClass \<Rightarrow> Inr ()
            | InputFileParamClass \<Rightarrow> validate_param_name nm ''Input parameter''
            | OutputFileParamClass \<Rightarrow> validate_param_name nm ''Output parameter'') of
        Inl e \<Rightarrow> Inl e
      | Inr _ \<Rightarrow>
          Inr \<lparr>fp_name = nm, fp_value = v, fp_docker_path = dp, fp_uri = u,
               fp_recursive = r, fp_file_provider = fprov\<rparr>)"
section \<open>The file parameter utilities\<close>

text \<open>\<open>'%s' % n\<close> for a natural number: its decimal digits.\<close>

function show_nat :: "nat \<Rightarrow> string" where
  "show_nat n = (if n < 10 then [digits ! n] else show_nat (n div 10) @ [digits ! (n mod 10)])"
  by pat_completeness auto
termination
  by (relation "measure id") auto

declare show_nat.simps [simp del]

definition InputFileParamUtil :: "string \<Rightarrow> FileParamUtil" where
  "InputFileParamUtil dp =
     \<lparr>param_class = InputFileParamClass, auto_prefix = ''INPUT_'', auto_index = 0,
      relative_path = dp\<rparr>"

definition OutputFileParamUtil :: "string \<Rightarrow> FileParamUtil" where
  "OutputFileParamUtil dp =
     \<lparr>param_class = OutputFileParamClass, auto_prefix = ''OUTPUT_'', auto_index = 0,
      relative_path = dp\<rparr>"

text \<open>
  \<open>get_variable_name\<close> mutates \<open>_auto_index\<close>; the model returns the name and the updated
  utility. \<open>not name\<close> holds for \<open>None\<close> and for the empty string.
\<close>

definition get_variable_name :: "FileParamUtil \<Rightarrow> string option \<Rightarrow> string \<times> FileParamUtil" where
  "get_variable_name util name =
     (if name = None \<or> name = Some []
      then (auto_prefix util @ show_nat (auto_index util),
            util\<lparr>auto_index := auto_index util + 1\<rparr>)
      else (the name, util))"

definition make_param ::
  "os_env \<Rightarrow> FileParamUtil \<Rightarrow> string \<Rightarrow> string \<Rightarrow> bool \<Rightarrow> error + FileParam" where
  "make_param env util nm raw_uri recursive =
     (case parse_uri env util raw_uri recursive of
        Inl e \<Rightarrow> Inl e
      | Inr (dp, uri_parts, provider) \<Rightarrow>
          FileParam_new (param_class util) nm (Some raw_uri) (Some dp) (Some uri_parts)
            recursive (Some provider))"

definition build_logging_param ::
  "os_env \<Rightarrow> string option \<Rightarrow> (string \<Rightarrow> FileParamUtil) \<Rightarrow> error + LoggingParam" where
  "build_logging_param env logging_uri util_class =
     (case logging_uri of
        None \<Rightarrow> Inr \<lparr>log_uri = None, log_file_provider = None\<rparr>
      | Some lu \<Rightarrow>
          if lu = [] then Inr \<lparr>log_uri = None, log_file_provider = None\<rparr>
          else
            (let recursive = \<not> endswith lu ''.log'';
                 oututil = util_class []
             in case parse_uri env oututil lu recursive of
                  Inl e \<Rightarrow> Inl e
                | Inr (_, u, provider) \<Rightarrow>
                    if CHR ''*'' \<in> set (basename u)
                    then Inl (ValueError (LoggingWildcard (uri_str u)))
                    else Inr \<lparr>log_uri = Some u, log_file_provider = Some provider\<rparr>))"

section \<open>Splitting tokens\<close>

text \<open>\<open>pair_string.split(separator, 1)\<close>: at most one split, at the first occurrence.\<close>

definition split_once :: "string \<Rightarrow> string \<Rightarrow> error + string list" where
  "split_once separator s =
     (if separator = [] then Inl (ValueError EmptySeparator)
      else case find_sep separator s of
             None \<Rightarrow> Inr [s]
           | Some (a, b) \<Rightarrow> Inr [a, b])"

definition split_pair :: "string \<Rightarrow> string \<Rightarrow> int \<Rightarrow> error + (string option \<times> string option)" where
  "split_pair pair_string separator nullable_idx =
     (case split_once separator pair_string of
        Inl e \<Rightarrow> Inl e
      | Inr pair \<Rightarrow>
          if length pair = 1 then
            (if nullable_idx = 0 then Inr (None, Some (pair ! 0))
             else if nullable_idx = 1 then Inr (Some (pair ! 0), None)
             else Inl IndexError)
          else Inr (Some (pair ! 0), Some (pair ! 1)))"

section \<open>The task table compiler\<close>

datatype job_param =
    EnvP EnvParam
  | LabelP LabelParam
  | InputFileP FileParam
  | OutputFileP FileParam

text \<open>
  One iteration of the loop of \<open>parse_tasks_file_header\<close>: the parameter of one column,
  and the two utilities after \<open>get_variable_name\<close>.
\<close>

definition header_column ::
  "string \<Rightarrow> FileParamUtil \<Rightarrow> FileParamUtil \<Rightarrow> error + (job_param \<times> FileParamUtil \<times> FileParamUtil)" where
  "header_column col iu ou =
     (case (if startswith col ''-'' then split_pair col '' '' 1 else Inr (Some ''--env'', Some col)) of
        Inl e \<Rightarrow> Inl e
      | Inr (col_type, col_value) \<Rightarrow>
          if col_type = Some ''--env'' then
            (case EnvParam_new col_value None of
               Inl e \<Rightarrow> Inl e | Inr p \<Rightarrow> Inr (EnvP p, iu, ou))
          else if col_type = Some ''--label'' then
            (case LabelParam_new col_value None of
               Inl e \<Rightarrow> Inl e | Inr p \<Rightarrow> Inr (LabelP p, iu, ou))
          else if col_type = Some ''--input'' \<or> col_type = Some ''--input-recursive'' then
            (let (nm, iu') = get_variable_name iu col_value
             in case FileParam_new InputFileParamClass nm None None None
                       (endswith (the col_type) ''recursive'') (Some P_GCS) of
                  Inl e \<Rightarrow> Inl e | Inr p \<Rightarrow> Inr (InputFileP p, iu', ou))
          else if col_type = Some ''--output'' \<or> col_type = Some ''--output-recursive'' then
            (let (nm, ou') = get_variable_name ou col_value
             in case FileParam_new OutputFileParamClass nm None None None
                       (endswith (the col_type) ''recursive'') (Some P_GCS) of
                  Inl e \<Rightarrow> Inl e | Inr p \<Rightarrow> Inr (OutputFileP p, iu, ou'))
          else Inl (ValueError (UnrecognizedColumn col)))"

fun parse_tasks_file_header_loop ::
  "string list \<Rightarrow> job_param list \<Rightarrow> FileParamUtil \<Rightarrow> FileParamUtil
     \<Rightarrow> error + (job_param list \<times> FileParamUtil \<times> FileParamUtil)" where
  "parse_tasks_file_header_loop [] job_params iu ou = Inr (job_params, iu, ou)"
| "parse_tasks_file_header_loop (col # cols) job_params iu ou =
     (case header_column col iu ou of
        Inl e \<Rightarrow> Inl e
      | Inr (p, iu', ou') \<Rightarrow> parse_tasks_file_header_loop cols (job_params @ [p]) iu' ou')"

definition parse_tasks_file_header ::
  "string list \<Rightarrow> FileParamUtil \<Rightarrow> FileParamUtil
     \<Rightarrow> error + (job_param list \<times> FileParamUtil \<times> FileParamUtil)" where
  "parse_tasks_file_header header iu ou = parse_tasks_file_header_loop header [] iu ou"

text \<open>
  One element of \<open>job_data\<close>: the dictionary with the keys \<open>task-id\<close>, \<open>labels\<close>, \<open>envs\<close>,
  \<open>inputs\<close> and \<open>outputs\<close>. \<open>args_to_job_data\<close> builds it without the key \<open>task-id\<close>.
\<close>

record job =
  job_task_id :: "int option"
  job_labels :: "LabelParam list"
  job_envs :: "EnvParam list"
  job_inputs :: "FileParam list"
  job_outputs :: "FileParam list"

text \<open>\<open>row[i]\<close> for \<open>i \<ge> 0\<close>: \<open>IndexError\<close> beyond the end of the row.\<close>

definition row_get :: "string list \<Rightarrow> nat \<Rightarrow> error + string" where
  "row_get row i = (if i < length row then Inr (row ! i) else Inl IndexError)"

text \<open>
  The loop \<open>for i in range(0, len(job_params))\<close>, started at index \<open>i\<close> with the
  parameters from \<open>i\<close> on; \<open>row[i]\<close> is evaluated before the constructor is called.
\<close>

fun row_params_loop ::
  "os_env \<Rightarrow> FileParamUtil \<Rightarrow> FileParamUtil \<Rightarrow> string list \<Rightarrow> nat \<Rightarrow> job_param list \<Rightarrow> job
     \<Rightarrow> error + job" where
  "row_params_loop env iu ou row i [] acc = Inr acc"
| "row_params_loop env iu ou row i (param # params) acc =
     (case row_get row i of
        Inl e \<Rightarrow> Inl e
      | Inr cell \<Rightarrow>
          (case param of
             EnvP p \<Rightarrow>
               (case EnvParam_new (Some (env_name p)) (Some cell) of
                  Inl e \<Rightarrow> Inl e
                | Inr q \<Rightarrow>
                    row_params_loop env iu ou row (i + 1) params
                      (acc\<lparr>job_envs := job_envs acc @ [q]\<rparr>))
           | LabelP p \<Rightarrow>
               (case LabelParam_new (Some (label_name p)) (Some cell) of
                  Inl e \<Rightarrow> Inl e
                | Inr q \<Rightarrow>
                    row_params_loop env iu ou row (i + 1) params
                      (acc\<lparr>job_labels := job_labels acc @ [q]\<rparr>))
           | InputFileP p \<Rightarrow>
               (case make_param env iu (fp_name p) cell (fp_recursive p) of
                  Inl e \<Rightarrow> Inl e
                | Inr q \<Rightarrow>
                    row_params_loop env iu ou row (i + 1) params
                      (acc\<lparr>job_inputs := job_inputs acc @ [q]\<rparr>))
           | OutputFileP p \<Rightarrow>
               (case make_param env ou (fp_name p) cell (fp_recursive p) of
                  Inl e \<Rightarrow> Inl e
                | Inr q \<Rightarrow>
                    row_params_loop env iu ou row (i + 1) params
                      (acc\<lparr>job_outputs := job_outputs acc @ [q]\<rparr>))))"
text \<open>
  Modelled from the spec: \<open>dsub_util.print_error\<close> (the module \<open>dsub_util\<close> is not part of
  the source tree). It reports a diagnostic and returns, so the run continues; the model
  collects the diagnostics in the order they are printed.
\<close>

datatype diagnostic = UnexpectedNumberOfFields nat nat nat

text \<open>
  The argument \<open>tasks\<close>: the dictionary with the key \<open>path\<close> and the optional keys \<open>min\<close>
  and \<open>max\<close> (\<open>tasks.get\<close> gives \<open>None\<close> for an absent key).
\<close>

record tasks =
  tasks_path :: string
  tasks_min :: "int option"
  tasks_max :: "int option"

text \<open>
  \<open>csv.reader(param_file, delimiter='\t')\<close> is a library iterator over the loaded file.
  The model takes the records it yields, each paired with the value of \<open>reader.line_num\<close>
  once the record has been read: the number of lines consumed so far, which runs ahead of
  the number of records when a quoted field holds a line break.

  The loop \<open>for row in reader\<close>. In \<open>task_min and task_id < task_min\<close> the bound \<open>None\<close>
  and the bound 0 are both false.
\<close>

fun rows_loop ::
  "os_env \<Rightarrow> FileParamUtil \<Rightarrow> FileParamUtil \<Rightarrow> job_param list \<Rightarrow> int option \<Rightarrow> int option
     \<Rightarrow> (nat \<times> string list) list \<Rightarrow> diagnostic list \<Rightarrow> job list
     \<Rightarrow> diagnostic list \<times> (error + job list)" where
  "rows_loop env iu ou job_params task_min task_max [] printed job_data = (printed, Inr job_data)"
| "rows_loop env iu ou job_params task_min task_max ((line_num, row) # rest) printed job_data =
     (let task_id = int line_num - 1
      in if (case task_min of None \<Rightarrow> False | Some m \<Rightarrow> m \<noteq> 0 \<and> task_id < m)
           then rows_loop env iu ou job_params task_min task_max rest printed job_data
         else if (case task_max of None \<Rightarrow> False | Some m \<Rightarrow> m \<noteq> 0 \<and> task_id > m)
           then rows_loop env iu ou job_params task_min task_max rest printed job_data
         else
           (let printed' =
                  (if length row \<noteq> length job_params
                   then printed @ [UnexpectedNumberOfFields (length row) (length job_params) line_num]
                   else printed)
            in case row_params_loop env iu ou row 0 job_params
                      \<lparr>job_task_id = Some task_id, job_labels = [], job_envs = [],
                       job_inputs = [], job_outputs = []\<rparr> of
                 Inl e \<Rightarrow> (printed', Inl e)
               | Inr t \<Rightarrow>
                   rows_loop env iu ou job_params task_min task_max rest printed' (job_data @ [t])))"

text \<open>
  \<open>tasks_file_to_job_data\<close>: the diagnostics printed, and the exception raised or the
  \<open>job_data\<close> returned. \<open>reader.next()\<close> raises \<open>StopIteration\<close> on an empty file.
\<close>

definition tasks_file_to_job_data ::
  "os_env \<Rightarrow> tasks \<Rightarrow> (nat \<times> string list) list \<Rightarrow> FileParamUtil \<Rightarrow> FileParamUtil
     \<Rightarrow> diagnostic list \<times> (error + job list)" where
  "tasks_file_to_job_data env tsk reader iu ou =
     (case reader of
        [] \<Rightarrow> ([], Inl StopIteration)
      | (header_line_num, header) # rows \<Rightarrow>
          (case parse_tasks_file_header header iu ou of
             Inl e \<Rightarrow> ([], Inl e)
           | Inr (job_params, iu', ou') \<Rightarrow>
               (case rows_loop env iu' ou' job_params (tasks_min tsk) (tasks_max tsk) rows [] [] of
                  (printed, Inl e) \<Rightarrow> (printed, Inl e)
                | (printed, Inr job_data) \<Rightarrow>
                    if job_data = [] then (printed, Inl (ValueError (NoTasks (tasks_path tsk))))
                    else (printed, Inr job_data))))"

section \<open>The command-line argument compiler\<close>

fun parse_pair_args ::
  "string list \<Rightarrow> (string option \<Rightarrow> string option \<Rightarrow> error + 'a) \<Rightarrow> error + 'a list" where
  "parse_pair_args [] argclass = Inr []"
| "parse_pair_args (arg # rest) argclass =
     (case split_pair arg ''='' 1 of
        Inl e \<Rightarrow> Inl e
      | Inr (name, v) \<Rightarrow>
          (case argclass name v of
             Inl e \<Rightarrow> Inl e
           | Inr x \<Rightarrow>
               (case parse_pair_args rest argclass of
                  Inl e \<Rightarrow> Inl e
                | Inr xs \<Rightarrow> Inr (x # xs))))"

text \<open>
  The inner loop \<open>for arg in args\<close> of \<open>args_to_job_data\<close> for one value of \<open>recursive\<close>.
  With \<open>nullable_idx = 0\<close> the second half of the pair is never \<open>None\<close>.
\<close>

fun file_args_loop ::
  "os_env \<Rightarrow> bool \<Rightarrow> string list \<Rightarrow> FileParamUtil \<Rightarrow> FileParam list
     \<Rightarrow> error + (FileParam list \<times> FileParamUtil)" where
  "file_args_loop env recursive [] util acc = Inr (acc, util)"
| "file_args_loop env recursive (arg # args) util acc =
     (case split_pair arg ''='' 0 of
        Inl e \<Rightarrow> Inl e
      | Inr (name, v) \<Rightarrow>
          (let (nm, util') = get_variable_name util name
           in case v of
                None \<Rightarrow> Inl TypeError
              | Some raw_uri \<Rightarrow>
                  (case make_param env util' nm raw_uri recursive of
                     Inl e \<Rightarrow> Inl e
                   | Inr p \<Rightarrow> file_args_loop env recursive args util' (acc @ [p]))))"

text \<open>
  \<open>args_to_job_data\<close> returns the one-element \<open>job_data\<close>; the model also returns the two
  utilities, whose counters the call has advanced.
\<close>

definition args_to_job_data ::
  "os_env \<Rightarrow> string list \<Rightarrow> string list \<Rightarrow> string list \<Rightarrow> string list \<Rightarrow> string list
     \<Rightarrow> string list \<Rightarrow> FileParamUtil \<Rightarrow> FileParamUtil
     \<Rightarrow> error + (job list \<times> FileParamUtil \<times> FileParamUtil)" where
  "args_to_job_data env envs labels inputs inputs_recursive outputs outputs_recursive iu ou =
     (case parse_pair_args envs EnvParam_new of
        Inl e \<Rightarrow> Inl e
      | Inr env_data \<Rightarrow>
     (case parse_pair_args labels LabelParam_new of
        Inl e \<Rightarrow> Inl e
      | Inr label_data \<Rightarrow>
     (case file_args_loop env False inputs iu [] of
        Inl e \<Rightarrow> Inl e
      | Inr (input_data0, iu0) \<Rightarrow>
     (case file_args_loop env True inputs_recursive iu0 input_data0 of
        Inl e \<Rightarrow> Inl e
      | Inr (input_data, iu') \<Rightarrow>
     (case file_args_loop env False outputs ou [] of
        Inl e \<Rightarrow> Inl e
      | Inr (output_data0, ou0) \<Rightarrow>
     (case file_args_loop env True outputs_recursive ou0 output_data0 of
        Inl e \<Rightarrow> Inl e
      | Inr (output_data, ou') \<Rightarrow>
          Inr ([\<lparr>job_task_id = None, job_labels = label_data, job_envs = env_data,
                 job_inputs = input_data, job_outputs = output_data\<rparr>], iu', ou')))))))"

section \<open>Age parsing\<close>










section \<open>Predicates of the specification\<close>

text \<open>
  The scheme token as the specification words it: 1 to 30 characters drawn from letters,
  digits, \<open>+\<close>, \<open>.\<close> and \<open>-\<close>.
\<close>

definition spec_scheme_token :: "string \<Rightarrow> bool" where
  "spec_scheme_token tok =
     (1 \<le> length tok \<and> length tok \<le> 30 \<and> list_all (\<lambda>c. c \<in> set scheme_chars) tok)"

text \<open>
  The scheme token that the regular expression of \<open>parse_file_provider\<close> accepts: a letter,
  then at most 29 scheme characters.
\<close>

definition scheme_token :: "string \<Rightarrow> bool" where
  "scheme_token tok =
     (tok \<noteq> [] \<and> length tok \<le> 30 \<and> hd tok \<in> set (ascii_uppercase @ ascii_lowercase)
      \<and> list_all (\<lambda>c. c \<in> set scheme_chars) tok)"

text \<open>
  A task number \<open>n\<close> lies within the task range: each bound is absent, or 0, or respected.
\<close>

definition selected :: "int option \<Rightarrow> int option \<Rightarrow> int \<Rightarrow> bool" where
  "selected task_min task_max n =
     ((case task_min of None \<Rightarrow> True | Some m \<Rightarrow> m = 0 \<or> m \<le> n)
      \<and> (case task_max of None \<Rightarrow> True | Some m \<Rightarrow> m = 0 \<or> n \<le> m))"

text \<open>
  The halves of a \<open>key=value\<close> token: the key is the text before the first \<open>=\<close> (the whole
  token when there is none), the rest is the text after the first \<open>=\<close> (absent when there
  is none).
\<close>

definition token_key :: "string \<Rightarrow> string" where
  "token_key tok = takeWhile (\<lambda>c. c \<noteq> CHR ''='') tok"

definition token_rest :: "string \<Rightarrow> string option" where
  "token_rest tok =
     (if CHR ''='' \<in> set tok then Some (tl (dropWhile (\<lambda>c. c \<noteq> CHR ''='') tok)) else None)"

text \<open>
  The names and raw values of the file parameters built from a list of tokens, starting
  with the counter at \<open>i\<close>: a token with a non-empty key keeps it; a token with no key, or
  an empty one, is named by the prefix and the counter, which then advances.
\<close>

fun auto_named :: "string \<Rightarrow> nat \<Rightarrow> string list \<Rightarrow> (string \<times> string option) list" where
  "auto_named pre i [] = []"
| "auto_named pre i (tok # toks) =
     (if CHR ''='' \<in> set tok \<and> token_key tok \<noteq> []
      then (token_key tok, token_rest tok) # auto_named pre i toks
      else (pre @ show_nat i, Some (case token_rest tok of None \<Rightarrow> tok | Some u \<Rightarrow> u))
             # auto_named pre (Suc i) toks)"

fun auto_count :: "string list \<Rightarrow> nat" where
  "auto_count [] = 0"
| "auto_count (tok # toks) =
     (if CHR ''='' \<in> set tok \<and> token_key tok \<noteq> [] then auto_count toks else Suc (auto_count toks))"



chapter \<open>Verified properties\<close>

section \<open>Path policy check\<close>

text \<open>
  C5. With \<open>(directory, filename) = os.path.split(uri)\<close>, the path policy check fails if and
  only if a square bracket occurs in the URI, or a question mark occurs in it, or an
  asterisk occurs in the directory, or \<open>**\<close> occurs in the filename, or the filename is
  \<open>.\<close> or \<open>..\<close>, or the reference is not recursive and the filename is empty. A URI with
  none of these passes the check.
\<close>

theorem validate_paths_or_fail_iff:
  "(isl (validate_paths_or_fail uri recursive) \<longleftrightarrow>
     (CHR ''['' \<in> set uri \<or> CHR '']'' \<in> set uri \<or> CHR ''?'' \<in> set uri
      \<or> CHR ''*'' \<in> set (fst (os_path_split uri))
      \<or> contains ''**'' (snd (os_path_split uri))
      \<or> snd (os_path_split uri) = ''.'' \<or> snd (os_path_split uri) = ''..''
      \<or> (\<not> recursive \<and> snd (os_path_split uri) = [])))
   \<and> (validate_paths_or_fail uri recursive = Inr () \<longleftrightarrow>
     \<not> (CHR ''['' \<in> set uri \<or> CHR '']'' \<in> set uri \<or> CHR ''?'' \<in> set uri
      \<or> CHR ''*'' \<in> set (fst (os_path_split uri))
      \<or> contains ''**'' (snd (os_path_split uri))
      \<or> snd (os_path_split uri) = ''.'' \<or> snd (os_path_split uri) = ''..''
      \<or> (\<not> recursive \<and> snd (os_path_split uri) = [])))"
  by (auto simp: validate_paths_or_fail_def Let_def split: prod.splits)

theorem validate_paths_or_fail_iff_witness:
  "isl (validate_paths_or_fail ''gs://b/*/x.txt'' False)
   \<and> validate_paths_or_fail ''gs://b/dir/*.txt'' False = Inr ()"
  using validate_paths_or_fail_iff [of "''gs://b/*/x.txt''" False]
        validate_paths_or_fail_iff [of "''gs://b/dir/*.txt''" False]
  by (simp add: os_path_split_def os_path_dirname_def os_path_basename_def
        rfind_slash_succ_def all_slashes_def rstrip_def)

section \<open>Provider detection\<close>

lemma match_scheme_Some_iff:
  "match_scheme u = Some tok \<longleftrightarrow> (\<exists>rest. u = tok @ ''://'' @ rest \<and> scheme_token tok)"
proof
  assume "match_scheme u = Some tok"
  then have tok: "tok = takeWhile (\<lambda>c. c \<in> set scheme_chars) u"
    and ne: "tok \<noteq> []" and hd: "hd tok \<in> set (ascii_uppercase @ ascii_lowercase)"
    and len: "length tok \<le> 30" and sw: "startswith (drop (length tok) u) ''://''"
    by (auto simp: match_scheme_def Let_def split: if_splits)
  from sw obtain rest where "drop (length tok) u = ''://'' @ rest"
    by (auto simp: startswith_def prefix_def)
  moreover have "u = tok @ drop (length tok) u"
    unfolding tok by (metis takeWhile_dropWhile_id dropWhile_eq_drop)
  moreover have "list_all (\<lambda>c. c \<in> set scheme_chars) tok"
    unfolding tok list_all_iff by (auto dest: set_takeWhileD)
  ultimately show "\<exists>rest. u = tok @ ''://'' @ rest \<and> scheme_token tok"
    using ne hd len unfolding scheme_token_def by metis
next
  assume "\<exists>rest. u = tok @ ''://'' @ rest \<and> scheme_token tok"
  then obtain rest where u: "u = tok @ ''://'' @ rest" and ne: "tok \<noteq> []"
    and len: "length tok \<le> 30"
    and hd: "hd tok \<in> set (ascii_uppercase @ ascii_lowercase)"
    and all: "list_all (\<lambda>c. c \<in> set scheme_chars) tok"
    unfolding scheme_token_def by blast
  have colon: "CHR '':'' \<notin> set scheme_chars"
    by (simp add: scheme_chars_def ascii_uppercase_def ascii_lowercase_def digits_def)
  have "takeWhile (\<lambda>c. c \<in> set scheme_chars) u = tok"
    unfolding u using all colon by (simp add: list_all_iff takeWhile_append2)
  then show "match_scheme u = Some tok"
    using ne len hd u by (simp add: match_scheme_def Let_def startswith_def)
qed

lemma match_scheme_None_iff:
  "match_scheme u = None \<longleftrightarrow> (\<nexists>tok rest. u = tok @ ''://'' @ rest \<and> scheme_token tok)"
  using match_scheme_Some_iff [of u] by (metis not_Some_eq)

text \<open>
  C6, as amended. If the URI begins with a scheme token, a letter followed by at most 29
  letters, digits, \<open>+\<close>, \<open>.\<close> or \<open>-\<close>, followed by \<open>://\<close>, then the token is compared without
  regard to case: \<open>gs\<close> yields cloud object storage, \<open>file\<close> yields local, and every other
  token fails with the unsupported-prefix error. A URI with no such prefix yields local.
\<close>

theorem parse_file_provider_by_scheme:
  "(\<forall>tok rest. u = tok @ ''://'' @ rest \<and> scheme_token tok \<longrightarrow>
      parse_file_provider u =
        (if lower tok = ''gs'' then Inr P_GCS
         else if lower tok = ''file'' then Inr P_LOCAL
         else Inl (ValueError (PrefixNotSupported (lower tok)))))
   \<and> ((\<nexists>tok rest. u = tok @ ''://'' @ rest \<and> scheme_token tok) \<longrightarrow>
      parse_file_provider u = Inr P_LOCAL)"
proof (intro conjI allI impI)
  fix tok rest
  assume "u = tok @ ''://'' @ rest \<and> scheme_token tok"
  then have "match_scheme u = Some tok"
    using match_scheme_Some_iff by blast
  then show "parse_file_provider u =
        (if lower tok = ''gs'' then Inr P_GCS
         else if lower tok = ''file'' then Inr P_LOCAL
         else Inl (ValueError (PrefixNotSupported (lower tok))))"
    by (simp add: parse_file_provider_def providers_def)
next
  assume "\<nexists>tok rest. u = tok @ ''://'' @ rest \<and> scheme_token tok"
  then have "match_scheme u = None"
    by (simp add: match_scheme_None_iff)
  then show "parse_file_provider u = Inr P_LOCAL"
    by (simp add: parse_file_provider_def providers_def)
qed

theorem parse_file_provider_by_scheme_witness:
  "parse_file_provider ''gs://b/o'' = Inr P_GCS
   \<and> parse_file_provider ''File:///tmp/x'' = Inr P_LOCAL
   \<and> parse_file_provider ''s3://b/o'' = Inl (ValueError (PrefixNotSupported ''s3''))
   \<and> parse_file_provider ''/tmp/x'' = Inr P_LOCAL"
proof -
  have a: "''gs://b/o'' = ''gs'' @ ''://'' @ ''b/o'' \<and> scheme_token ''gs''"
    by code_simp
  have b: "''File:///tmp/x'' = ''File'' @ ''://'' @ ''/tmp/x'' \<and> scheme_token ''File''"
    by code_simp
  have c: "''s3://b/o'' = ''s3'' @ ''://'' @ ''b/o'' \<and> scheme_token ''s3''"
    by code_simp
  have "match_scheme ''/tmp/x'' = None"
    by code_simp
  then have d: "\<nexists>tok rest. ''/tmp/x'' = tok @ ''://'' @ rest \<and> scheme_token tok"
    using match_scheme_None_iff by blast
  have l: "lower ''gs'' = ''gs''" "lower ''File'' = ''file''" "lower ''s3'' = ''s3''"
    by code_simp+
  have "parse_file_provider ''gs://b/o'' = Inr P_GCS"
    using parse_file_provider_by_scheme [of "''gs://b/o''", THEN conjunct1, rule_format, OF a]
    by (simp add: l)
  moreover have "parse_file_provider ''File:///tmp/x'' = Inr P_LOCAL"
    using parse_file_provider_by_scheme [of "''File:///tmp/x''", THEN conjunct1, rule_format, OF b]
    by (simp add: l)
  moreover have "parse_file_provider ''s3://b/o'' = Inl (ValueError (PrefixNotSupported ''s3''))"
    using parse_file_provider_by_scheme [of "''s3://b/o''", THEN conjunct1, rule_format, OF c]
    by (simp add: l)
  moreover have "parse_file_provider ''/tmp/x'' = Inr P_LOCAL"
    using parse_file_provider_by_scheme [of "''/tmp/x''", THEN conjunct2, rule_format, OF d] .
  ultimately show ?thesis by blast
qed

text \<open>
  The claim as first stated fails on the code: \<open>1a\<close> and \<open>GS\<close> are tokens of 1 to 30 characters
  drawn from letters, digits, \<open>+\<close>, \<open>.\<close>, \<open>-\<close> and are neither \<open>gs\<close> nor \<open>file\<close>, yet
  \<open>1a://x\<close> is local (the token must start with a letter) and \<open>GS://b/o\<close> is cloud object
  storage (the token is lowered before the lookup).
\<close>

theorem parse_file_provider_counterexample:
  "spec_scheme_token ''1a'' \<and> ''1a'' \<noteq> ''gs'' \<and> ''1a'' \<noteq> ''file''
   \<and> parse_file_provider ''1a://x'' = Inr P_LOCAL
   \<and> spec_scheme_token ''GS'' \<and> ''GS'' \<noteq> ''gs'' \<and> ''GS'' \<noteq> ''file''
   \<and> parse_file_provider ''GS://b/o'' = Inr P_GCS"
  by code_simp

section \<open>Task numbering and the task range\<close>

lemma selected_iff:
  "selected tmin tmax n \<longleftrightarrow>
     \<not> (case tmin of None \<Rightarrow> False | Some m \<Rightarrow> m \<noteq> 0 \<and> n < m)
     \<and> \<not> (case tmax of None \<Rightarrow> False | Some m \<Rightarrow> m \<noteq> 0 \<and> n > m)"
  by (auto simp: selected_def split: option.splits)

lemma rows_loop_filter:
  "rows_loop env iu ou jp tmin tmax rows printed jd =
   rows_loop env iu ou jp None None
     (filter (\<lambda>(ln, row). selected tmin tmax (int ln - 1)) rows) printed jd"
proof (induction rows arbitrary: printed jd)
  case Nil
  show ?case by simp
next
  case (Cons r rows)
  obtain ln row where r: "r = (ln, row)" by (cases r)
  show ?case
  proof (cases "selected tmin tmax (int ln - 1)")
    case True
    then have "\<not> (case tmin of None \<Rightarrow> False | Some m \<Rightarrow> m \<noteq> 0 \<and> int ln - 1 < m)"
      and "\<not> (case tmax of None \<Rightarrow> False | Some m \<Rightarrow> m \<noteq> 0 \<and> int ln - 1 > m)"
      by (simp_all add: selected_iff)
    with True show ?thesis
      unfolding r by (simp add: Let_def Cons.IH split: sum.splits)
  next
    case False
    then have "(case tmin of None \<Rightarrow> False | Some m \<Rightarrow> m \<noteq> 0 \<and> int ln - 1 < m)
      \<or> (case tmax of None \<Rightarrow> False | Some m \<Rightarrow> m \<noteq> 0 \<and> int ln - 1 > m)"
      by (simp add: selected_iff)
    with False show ?thesis
      unfolding r by (auto simp: Let_def Cons.IH)
  qed
qed



lemma tasks_file_filter:
  "tasks_file_to_job_data env tsk ((hl, header) # rows) iu ou =
     tasks_file_to_job_data env (tsk\<lparr>tasks_min := None, tasks_max := None\<rparr>)
       ((hl, header) # filter (\<lambda>(ln, row). selected (tasks_min tsk) (tasks_max tsk) (int ln - 1)) rows)
       iu ou"
proof (cases "parse_tasks_file_header header iu ou")
  case (Inl e)
  then show ?thesis by (simp add: tasks_file_to_job_data_def)
next
  case (Inr r)
  obtain jp iu' ou' where r: "r = (jp, iu', ou')" by (cases r)
  have "rows_loop env iu' ou' jp (tasks_min tsk) (tasks_max tsk) rows [] [] =
        rows_loop env iu' ou' jp None None
          (filter (\<lambda>(ln, row). selected (tasks_min tsk) (tasks_max tsk) (int ln - 1)) rows) [] []"
    by (rule rows_loop_filter)
  then show ?thesis
    by (simp add: tasks_file_to_job_data_def Inr r split: prod.splits sum.splits)
qed






section \<open>A task-range bound of zero\<close>

lemma rows_loop_min0:
  "rows_loop env iu ou jp (Some 0) tmax rows printed jd =
   rows_loop env iu ou jp None tmax rows printed jd"
  by (induction rows arbitrary: printed jd) (auto simp: Let_def split: sum.splits)

lemma rows_loop_max0:
  "rows_loop env iu ou jp tmin (Some 0) rows printed jd =
   rows_loop env iu ou jp tmin None rows printed jd"
  by (induction rows arbitrary: printed jd) (auto simp: Let_def split: sum.splits)

text \<open>
  C10. A task-range bound equal to 0 disables the filter on its side, as an absent bound
  does: the outcome with \<open>min = 0\<close> is the outcome with no \<open>min\<close>, and the outcome with
  \<open>max = 0\<close> is the outcome with no \<open>max\<close>. So the range \<open>[1, 0]\<close> excludes no row: data rows
  end on line 2 or later, and then the outcome is that of the unfiltered file.
\<close>

theorem zero_bound_disables_filter:
  "tasks_file_to_job_data env (tsk\<lparr>tasks_min := Some 0\<rparr>) reader iu ou =
     tasks_file_to_job_data env (tsk\<lparr>tasks_min := None\<rparr>) reader iu ou
   \<and> tasks_file_to_job_data env (tsk\<lparr>tasks_max := Some 0\<rparr>) reader iu ou =
     tasks_file_to_job_data env (tsk\<lparr>tasks_max := None\<rparr>) reader iu ou
   \<and> ((\<forall>r \<in> set rows. 2 \<le> fst r) \<longrightarrow>
       tasks_file_to_job_data env (tsk\<lparr>tasks_min := Some 1, tasks_max := Some 0\<rparr>)
         ((hl, header) # rows) iu ou =
       tasks_file_to_job_data env (tsk\<lparr>tasks_min := None, tasks_max := None\<rparr>)
         ((hl, header) # rows) iu ou)"
proof (intro conjI impI)
  show "tasks_file_to_job_data env (tsk\<lparr>tasks_min := Some 0\<rparr>) reader iu ou =
     tasks_file_to_job_data env (tsk\<lparr>tasks_min := None\<rparr>) reader iu ou"
    by (simp add: tasks_file_to_job_data_def rows_loop_min0
          split: list.splits sum.splits prod.splits)
next
  show "tasks_file_to_job_data env (tsk\<lparr>tasks_max := Some 0\<rparr>) reader iu ou =
     tasks_file_to_job_data env (tsk\<lparr>tasks_max := None\<rparr>) reader iu ou"
    by (simp add: tasks_file_to_job_data_def rows_loop_max0
          split: list.splits sum.splits prod.splits)
next
  assume ge: "\<forall>r \<in> set rows. 2 \<le> fst r"
  have "filter (\<lambda>(ln, row). selected (Some 1) (Some 0) (int ln - 1)) rows = rows"
    using ge by (auto simp: selected_def intro!: filter_True)
  then show "tasks_file_to_job_data env (tsk\<lparr>tasks_min := Some 1, tasks_max := Some 0\<rparr>)
         ((hl, header) # rows) iu ou =
       tasks_file_to_job_data env (tsk\<lparr>tasks_min := None, tasks_max := None\<rparr>)
         ((hl, header) # rows) iu ou"
    using tasks_file_filter [of env "tsk\<lparr>tasks_min := Some 1, tasks_max := Some 0\<rparr>" hl header rows iu ou]
    by simp
qed

theorem zero_bound_disables_filter_witness:
  "tasks_file_to_job_data \<lparr>HOME = Some ''/home/u'', getcwd = ''/work''\<rparr>
       \<lparr>tasks_path = ''t.tsv'', tasks_min = Some 1, tasks_max = Some 0\<rparr>
       [(1, [''A'']), (2, [''x'']), (3, [''y''])]
       (InputFileParamUtil ''in'') (OutputFileParamUtil ''out'') =
     ([], Inr [\<lparr>job_task_id = Some 1, job_labels = [],
                job_envs = [\<lparr>env_name = ''A'', env_value = Some ''x''\<rparr>],
                job_inputs = [], job_outputs = []\<rparr>,
               \<lparr>job_task_id = Some 2, job_labels = [],
                job_envs = [\<lparr>env_name = ''A'', env_value = Some ''y''\<rparr>],
                job_inputs = [], job_outputs = []\<rparr>])"
proof -
  let ?env = "\<lparr>HOME = Some ''/home/u'', getcwd = ''/work''\<rparr>"
  let ?tsk = "\<lparr>tasks_path = ''t.tsv'', tasks_min = Some 5, tasks_max = Some 7\<rparr>"
  let ?rows = "[(2::nat, [''x'']), (3, [''y''])]"
  have ge: "\<forall>r \<in> set ?rows. 2 \<le> fst r" by simp
  have "tasks_file_to_job_data ?env \<lparr>tasks_path = ''t.tsv'', tasks_min = None, tasks_max = None\<rparr>
       ((1, [''A'']) # ?rows) (InputFileParamUtil ''in'') (OutputFileParamUtil ''out'') =
     ([], Inr [\<lparr>job_task_id = Some 1, job_labels = [],
                job_envs = [\<lparr>env_name = ''A'', env_value = Some ''x''\<rparr>],
                job_inputs = [], job_outputs = []\<rparr>,
               \<lparr>job_task_id = Some 2, job_labels = [],
                job_envs = [\<lparr>env_name = ''A'', env_value = Some ''y''\<rparr>],
                job_inputs = [], job_outputs = []\<rparr>])"
    by code_simp
  with zero_bound_disables_filter [of ?env ?tsk _ "InputFileParamUtil ''in''"
      "OutputFileParamUtil ''out''" ?rows 1 "[''A'']", THEN conjunct2, THEN conjunct2, THEN mp, OF ge]
  show ?thesis by simp
qed

section \<open>Rows narrower than the header\<close>

lemma short_row_raises:
  "i \<le> length row \<Longrightarrow> length row < i + length params \<Longrightarrow>
   isl (row_params_loop env iu ou row i params acc)"
proof (induction params arbitrary: i acc)
  case Nil
  then show ?case by simp
next
  case (Cons p params)
  show ?case
  proof (cases "i < length row")
    case False
    then have "row_get row i = Inl IndexError" by (simp add: row_get_def)
    then show ?thesis by simp
  next
    case True
    with Cons.prems have "i + 1 \<le> length row" "length row < (i + 1) + length params" by simp_all
    from Cons.IH[OF this] show ?thesis
      by (auto simp: row_get_def True split: sum.splits job_param.splits)
  qed
qed

text \<open>
  A row wider than the header is tolerated: the diagnostic is printed, the cells beyond the
  header's columns are ignored, and the row and the rows after it are compiled.
\<close>

lemma wide_row_extra_cells_ignored:
  "row_params_loop env iu ou (row @ extra) i params acc = row_params_loop env iu ou row i params acc"
  if "i + length params \<le> length row"
  using that
proof (induction params arbitrary: i acc)
  case Nil
  show ?case by simp
next
  case (Cons p params)
  then have i: "i < length row" and rest: "Suc i + length params \<le> length row"
    by simp_all
  from i have "row_get (row @ extra) i = row_get row i"
    by (simp add: row_get_def nth_append)
  then show ?case
    by (simp add: Cons.IH [OF rest] split: sum.splits job_param.splits)
qed

lemma wide_row_reported_and_compiled:
  "tasks_file_to_job_data \<lparr>HOME = None, getcwd = ''/work''\<rparr>
     \<lparr>tasks_path = ''t.tsv'', tasks_min = None, tasks_max = None\<rparr>
     [(1, [''A'', ''B'']), (2, [''x'', ''y'', ''z'']), (3, [''1'', ''2''])]
     (InputFileParamUtil ''in'') (OutputFileParamUtil ''out'') =
   ([UnexpectedNumberOfFields 3 2 2],
    Inr [\<lparr>job_task_id = Some 1, job_labels = [],
           job_envs = [\<lparr>env_name = ''A'', env_value = Some ''x''\<rparr>,
                       \<lparr>env_name = ''B'', env_value = Some ''y''\<rparr>],
           job_inputs = [], job_outputs = []\<rparr>,
         \<lparr>job_task_id = Some 2, job_labels = [],
           job_envs = [\<lparr>env_name = ''A'', env_value = Some ''1''\<rparr>,
                       \<lparr>env_name = ''B'', env_value = Some ''2''\<rparr>],
           job_inputs = [], job_outputs = []\<rparr>])"
  by code_simp

text \<open>
  C1, on the code. A data row within the task range that has fewer cells than the header
  has columns is reported with the diagnostic, and then the run aborts with an exception
  (\<open>IndexError\<close> from \<open>row[i]\<close>, unless an earlier cell of the row fails its validation):
  the row yields no task and the rows after it are not compiled.
\<close>

theorem short_row_aborts:
  "length row < length job_params \<Longrightarrow> selected task_min task_max (int line_num - 1) \<Longrightarrow>
   \<exists>e. rows_loop env iu ou job_params task_min task_max ((line_num, row) # rest) printed job_data =
     (printed @ [UnexpectedNumberOfFields (length row) (length job_params) line_num], Inl e)"
proof -
  assume short: "length row < length job_params"
    and sel: "selected task_min task_max (int line_num - 1)"
  from sel have "\<not> (case task_min of None \<Rightarrow> False | Some m \<Rightarrow> m \<noteq> 0 \<and> int line_num - 1 < m)"
      and "\<not> (case task_max of None \<Rightarrow> False | Some m \<Rightarrow> m \<noteq> 0 \<and> int line_num - 1 > m)"
    by (simp_all add: selected_iff)
  moreover from short obtain e where
    "row_params_loop env iu ou row 0 job_params
       \<lparr>job_task_id = Some (int line_num - 1), job_labels = [], job_envs = [],
        job_inputs = [], job_outputs = []\<rparr> = Inl e"
    using short_row_raises [of 0 row job_params env iu ou] by (auto simp: isl_def)
  ultimately show ?thesis
    using short by (simp add: Let_def)
qed

theorem short_row_aborts_witness:
  "(\<exists>e. rows_loop \<lparr>HOME = Some ''/home/u'', getcwd = ''/work''\<rparr>
          (InputFileParamUtil ''in'') (OutputFileParamUtil ''out'')
          [EnvP \<lparr>env_name = ''A'', env_value = None\<rparr>, EnvP \<lparr>env_name = ''B'', env_value = None\<rparr>]
          None None [(2, [''x'']), (3, [''y'', ''z''])] [] [] =
        ([UnexpectedNumberOfFields 1 2 2], Inl e))
   \<and> tasks_file_to_job_data \<lparr>HOME = Some ''/home/u'', getcwd = ''/work''\<rparr>
       \<lparr>tasks_path = ''t.tsv'', tasks_min = None, tasks_max = None\<rparr>
       [(1, [''A'', ''B'']), (2, [''x'']), (3, [''y'', ''z''])]
       (InputFileParamUtil ''in'') (OutputFileParamUtil ''out'') =
     ([UnexpectedNumberOfFields 1 2 2], Inl IndexError)"
proof -
  have "length [''x''] < length [EnvP \<lparr>env_name = ''A'', env_value = None\<rparr>,
      EnvP \<lparr>env_name = ''B'', env_value = None\<rparr>]"
    by simp
  moreover have "selected None None (int 2 - 1)"
    by (simp add: selected_def)
  ultimately have "\<exists>e. rows_loop \<lparr>HOME = Some ''/home/u'', getcwd = ''/work''\<rparr>
          (InputFileParamUtil ''in'') (OutputFileParamUtil ''out'')
          [EnvP \<lparr>env_name = ''A'', env_value = None\<rparr>, EnvP \<lparr>env_name = ''B'', env_value = None\<rparr>]
          None None ((2, [''x'']) # [(3, [''y'', ''z''])]) [] [] =
        ([] @ [UnexpectedNumberOfFields (length [''x''])
           (length [EnvP \<lparr>env_name = ''A'', env_value = None\<rparr>,
              EnvP \<lparr>env_name = ''B'', env_value = None\<rparr>]) 2], Inl e)"
    by (rule short_row_aborts)
  then have "\<exists>e. rows_loop \<lparr>HOME = Some ''/home/u'', getcwd = ''/work''\<rparr>
          (InputFileParamUtil ''in'') (OutputFileParamUtil ''out'')
          [EnvP \<lparr>env_name = ''A'', env_value = None\<rparr>, EnvP \<lparr>env_name = ''B'', env_value = None\<rparr>]
          None None [(2, [''x'']), (3, [''y'', ''z''])] [] [] =
        ([UnexpectedNumberOfFields 1 2 2], Inl e)"
    by (simp add: numeral_2_eq_2 del: rows_loop.simps)
  moreover have "tasks_file_to_job_data \<lparr>HOME = Some ''/home/u'', getcwd = ''/work''\<rparr>
       \<lparr>tasks_path = ''t.tsv'', tasks_min = None, tasks_max = None\<rparr>
       [(1, [''A'', ''B'']), (2, [''x'']), (3, [''y'', ''z''])]
       (InputFileParamUtil ''in'') (OutputFileParamUtil ''out'') =
     ([UnexpectedNumberOfFields 1 2 2], Inl IndexError)"
    by code_simp
  ultimately show ?thesis by (intro conjI)
qed

section \<open>Splitting the tokens of the command line\<close>

lemma find_sep_char:
  "find_sep [d] s =
     (if d \<in> set s then Some (takeWhile (\<lambda>c. c \<noteq> d) s, tl (dropWhile (\<lambda>c. c \<noteq> d) s)) else None)"
  by (induction s) auto

lemma takeWhile_absent: "d \<notin> set s \<Longrightarrow> takeWhile (\<lambda>c. c \<noteq> d) s = s"
  by (induction s) auto

lemma takeWhile_first: "d \<notin> set a \<Longrightarrow> takeWhile (\<lambda>c. c \<noteq> d) (a @ d # b) = a"
  by (induction a) auto

lemma dropWhile_first: "d \<notin> set a \<Longrightarrow> dropWhile (\<lambda>c. c \<noteq> d) (a @ d # b) = d # b"
  by (induction a) auto

lemma split_pair_eq:
  "split_pair tok ''='' 1 = Inr (Some (token_key tok), token_rest tok)"
  "split_pair tok ''='' 0 =
     Inr (if CHR ''='' \<in> set tok then (Some (token_key tok), token_rest tok) else (None, Some tok))"
  by (auto simp: split_pair_def split_once_def find_sep_char token_key_def token_rest_def
        takeWhile_absent)

lemma split_pair_first:
  assumes "CHR ''='' \<notin> set a"
  shows "split_pair (a @ CHR ''='' # b) ''='' idx = Inr (Some a, Some b)"
  using assms
  by (simp add: split_pair_def split_once_def find_sep_char takeWhile_first dropWhile_first)

lemma split_pair_absent:
  assumes "CHR ''='' \<notin> set tok"
  shows "split_pair tok ''='' 1 = Inr (Some tok, None)"
    and "split_pair tok ''='' 0 = Inr (None, Some tok)"
  using assms by (simp_all add: split_pair_def split_once_def find_sep_char)

lemma EnvParam_new_fields:
  "EnvParam_new (Some k) v = Inr p \<Longrightarrow> env_name p = k \<and> env_value p = v"
  by (auto simp: EnvParam_new_def split: sum.splits)

lemma LabelParam_new_fields:
  "LabelParam_new (Some k) v = Inr p \<Longrightarrow> label_name p = k \<and> label_value p = v"
  by (auto simp: LabelParam_new_def split: sum.splits)

lemma parse_pair_args_env:
  "parse_pair_args toks EnvParam_new = Inr ps \<Longrightarrow>
   map (\<lambda>p. (env_name p, env_value p)) ps = map (\<lambda>t. (token_key t, token_rest t)) toks"
  by (induction toks arbitrary: ps)
     (auto simp: split_pair_eq split: sum.splits dest: EnvParam_new_fields)

lemma parse_pair_args_label:
  "parse_pair_args toks LabelParam_new = Inr ps \<Longrightarrow>
   map (\<lambda>p. (label_name p, label_value p)) ps = map (\<lambda>t. (token_key t, token_rest t)) toks"
  by (induction toks arbitrary: ps)
     (auto simp: split_pair_eq split: sum.splits dest: LabelParam_new_fields)

lemma make_param_fields:
  "make_param env util nm raw_uri r = Inr p \<Longrightarrow> fp_name p = nm \<and> fp_value p = Some raw_uri"
  by (auto simp: make_param_def FileParam_new_def split: sum.splits prod.splits)

lemma auto_named_append:
  "auto_named pre i (xs @ ys) = auto_named pre i xs @ auto_named pre (i + auto_count xs) ys"
  by (induction xs arbitrary: i) auto

lemma file_args_loop_step:
  "file_args_loop env r (tok # toks) util acc =
     (let (nm, util') =
            (if CHR ''='' \<in> set tok \<and> token_key tok \<noteq> [] then (token_key tok, util)
             else (auto_prefix util @ show_nat (auto_index util),
                   util\<lparr>auto_index := auto_index util + 1\<rparr>));
          raw_uri = (case token_rest tok of None \<Rightarrow> tok | Some u \<Rightarrow> u)
      in case make_param env util' nm raw_uri r of
           Inl e \<Rightarrow> Inl e
         | Inr p \<Rightarrow> file_args_loop env r toks util' (acc @ [p]))"
  by (simp add: split_pair_eq get_variable_name_def token_rest_def)

lemma file_args_loop_fields:
  "file_args_loop env r toks util acc = Inr (ps, util') \<Longrightarrow>
   map (\<lambda>p. (fp_name p, fp_value p)) ps =
     map (\<lambda>p. (fp_name p, fp_value p)) acc @ auto_named (auto_prefix util) (auto_index util) toks
   \<and> auto_prefix util' = auto_prefix util
   \<and> auto_index util' = auto_index util + auto_count toks"
proof (induction toks arbitrary: util acc)
  case Nil
  then show ?case by simp
next
  case (Cons tok toks)
  show ?case
  proof (cases "CHR ''='' \<in> set tok \<and> token_key tok \<noteq> []")
    case True
    with Cons.prems obtain p where
      mp: "make_param env util (token_key tok) (case token_rest tok of None \<Rightarrow> tok | Some u \<Rightarrow> u) r = Inr p"
      and rest: "file_args_loop env r toks util (acc @ [p]) = Inr (ps, util')"
      unfolding file_args_loop_step by (auto split: sum.splits)
    from make_param_fields [OF mp] True Cons.IH [OF rest] show ?thesis
      by (simp add: token_rest_def)
  next
    case False
    let ?u = "util\<lparr>auto_index := auto_index util + 1\<rparr>"
    from False Cons.prems obtain p where
      mp: "make_param env ?u (auto_prefix util @ show_nat (auto_index util))
             (case token_rest tok of None \<Rightarrow> tok | Some u \<Rightarrow> u) r = Inr p"
      and rest: "file_args_loop env r toks ?u (acc @ [p]) = Inr (ps, util')"
      unfolding file_args_loop_step by (auto split: sum.splits)
    from make_param_fields [OF mp] False Cons.IH [OF rest] show ?thesis
      by auto
  qed
qed

text \<open>
  C8. A token is split at its first \<open>=\<close> only. For the env and label tokens, a token without
  \<open>=\<close> gives the whole token as the key and no value. For the input and output tokens, a
  token without \<open>=\<close> gives no key and the whole token as the value, and the parameter is
  then named by the prefix and the running counter of its utility.
\<close>

theorem args_tokens_split:
  "(CHR ''='' \<notin> set a \<longrightarrow> split_pair (a @ CHR ''='' # b) ''='' idx = Inr (Some a, Some b))
   \<and> (CHR ''='' \<notin> set tok \<longrightarrow>
        split_pair tok ''='' 1 = Inr (Some tok, None) \<and> split_pair tok ''='' 0 = Inr (None, Some tok))
   \<and> (args_to_job_data env envs labels inputs inputs_recursive outputs outputs_recursive iu ou
        = Inr (job_data, iu', ou') \<longrightarrow>
      length job_data = 1
      \<and> map (\<lambda>p. (env_name p, env_value p)) (job_envs (hd job_data)) =
          map (\<lambda>t. (token_key t, token_rest t)) envs
      \<and> map (\<lambda>p. (label_name p, label_value p)) (job_labels (hd job_data)) =
          map (\<lambda>t. (token_key t, token_rest t)) labels
      \<and> map (\<lambda>p. (fp_name p, fp_value p)) (job_inputs (hd job_data)) =
          auto_named (auto_prefix iu) (auto_index iu) (inputs @ inputs_recursive)
      \<and> map (\<lambda>p. (fp_name p, fp_value p)) (job_outputs (hd job_data)) =
          auto_named (auto_prefix ou) (auto_index ou) (outputs @ outputs_recursive))"
proof (intro conjI impI)
  assume "CHR ''='' \<notin> set a"
  then show "split_pair (a @ CHR ''='' # b) ''='' idx = Inr (Some a, Some b)"
    by (rule split_pair_first)
next
  assume "CHR ''='' \<notin> set tok"
  then show "split_pair tok ''='' 1 = Inr (Some tok, None)"
    and "split_pair tok ''='' 0 = Inr (None, Some tok)"
    by (rule split_pair_absent)+
next
  assume "args_to_job_data env envs labels inputs inputs_recursive outputs outputs_recursive iu ou
        = Inr (job_data, iu', ou')"
  then obtain env_data label_data in0 iu0 input_data out0 ou0 output_data where
    e: "parse_pair_args envs EnvParam_new = Inr env_data"
    and l: "parse_pair_args labels LabelParam_new = Inr label_data"
    and i0: "file_args_loop env False inputs iu [] = Inr (in0, iu0)"
    and i1: "file_args_loop env True inputs_recursive iu0 in0 = Inr (input_data, iu')"
    and o0: "file_args_loop env False outputs ou [] = Inr (out0, ou0)"
    and o1: "file_args_loop env True outputs_recursive ou0 out0 = Inr (output_data, ou')"
    and jd: "job_data = [\<lparr>job_task_id = None, job_labels = label_data, job_envs = env_data,
                 job_inputs = input_data, job_outputs = output_data\<rparr>]"
    by (auto simp: args_to_job_data_def split: sum.splits prod.splits)
  show "length job_data = 1"
    by (simp add: jd)
  show "map (\<lambda>p. (env_name p, env_value p)) (job_envs (hd job_data)) =
          map (\<lambda>t. (token_key t, token_rest t)) envs"
    using parse_pair_args_env [OF e] by (simp add: jd)
  show "map (\<lambda>p. (label_name p, label_value p)) (job_labels (hd job_data)) =
          map (\<lambda>t. (token_key t, token_rest t)) labels"
    using parse_pair_args_label [OF l] by (simp add: jd)
  show "map (\<lambda>p. (fp_name p, fp_value p)) (job_inputs (hd job_data)) =
          auto_named (auto_prefix iu) (auto_index iu) (inputs @ inputs_recursive)"
    using file_args_loop_fields [OF i0] file_args_loop_fields [OF i1]
    by (simp add: jd auto_named_append)
  show "map (\<lambda>p. (fp_name p, fp_value p)) (job_outputs (hd job_data)) =
          auto_named (auto_prefix ou) (auto_index ou) (outputs @ outputs_recursive)"
    using file_args_loop_fields [OF o0] file_args_loop_fields [OF o1]
    by (simp add: jd auto_named_append)
qed

theorem args_tokens_split_witness:
  "split_pair (''k'' @ CHR ''='' # ''v=w'') ''='' 1 = Inr (Some ''k'', Some ''v=w'')
   \<and> split_pair ''k'' ''='' 1 = Inr (Some ''k'', None)
   \<and> split_pair ''k'' ''='' 0 = Inr (None, Some ''k'')
   \<and> args_to_job_data \<lparr>HOME = None, getcwd = ''/work''\<rparr> [''A=1=2'', ''B''] [] [''gs://b/x''] [] [] []
        (InputFileParamUtil ''in'') (OutputFileParamUtil ''out'') =
      Inr ([\<lparr>job_task_id = None, job_labels = [],
             job_envs = [\<lparr>env_name = ''A'', env_value = Some ''1=2''\<rparr>,
                         \<lparr>env_name = ''B'', env_value = None\<rparr>],
             job_inputs =
               [\<lparr>fp_name = ''INPUT_0'', fp_value = Some ''gs://b/x'',
                 fp_docker_path = Some ''in/gs/b/x'',
                 fp_uri = Some \<lparr>path = ''gs://b/'', basename = ''x''\<rparr>,
                 fp_recursive = False, fp_file_provider = Some P_GCS\<rparr>],
             job_outputs = []\<rparr>],
           \<lparr>param_class = InputFileParamClass, auto_prefix = ''INPUT_'', auto_index = 1,
            relative_path = ''in''\<rparr>,
           OutputFileParamUtil ''out'')
   \<and> map (\<lambda>t. (token_key t, token_rest t)) [''A=1=2'', ''B''] = [(''A'', Some ''1=2''), (''B'', None)]
   \<and> auto_named (auto_prefix (InputFileParamUtil ''in'')) (auto_index (InputFileParamUtil ''in''))
        ([''gs://b/x''] @ []) = [(''INPUT_0'', Some ''gs://b/x'')]"
proof -
  let ?env = "\<lparr>HOME = None, getcwd = ''/work''\<rparr>"
  let ?j = "\<lparr>job_task_id = None, job_labels = [],
             job_envs = [\<lparr>env_name = ''A'', env_value = Some ''1=2''\<rparr>,
                         \<lparr>env_name = ''B'', env_value = None\<rparr>],
             job_inputs =
               [\<lparr>fp_name = ''INPUT_0'', fp_value = Some ''gs://b/x'',
                 fp_docker_path = Some ''in/gs/b/x'',
                 fp_uri = Some \<lparr>path = ''gs://b/'', basename = ''x''\<rparr>,
                 fp_recursive = False, fp_file_provider = Some P_GCS\<rparr>],
             job_outputs = []\<rparr>"
  let ?iu = "\<lparr>param_class = InputFileParamClass, auto_prefix = ''INPUT_'', auto_index = 1,
            relative_path = ''in''\<rparr>"
  note T = args_tokens_split [of "''k''" "''v=w''" 1 "''k''" ?env "[''A=1=2'', ''B'']" "[]"
      "[''gs://b/x'']" "[]" "[]" "[]"
      "InputFileParamUtil ''in''" "OutputFileParamUtil ''out''" "[?j]" ?iu "OutputFileParamUtil ''out''"]
  have k: "CHR ''='' \<notin> set ''k''"
    by simp
  have r: "args_to_job_data ?env [''A=1=2'', ''B''] [] [''gs://b/x''] [] [] []
      (InputFileParamUtil ''in'') (OutputFileParamUtil ''out'') =
      Inr ([?j], ?iu, OutputFileParamUtil ''out'')"
    by code_simp
  have fields: "map (\<lambda>p. (env_name p, env_value p)) (job_envs (hd [?j])) =
        [(''A'', Some ''1=2''), (''B'', None)]"
      "map (\<lambda>p. (fp_name p, fp_value p)) (job_inputs (hd [?j])) = [(''INPUT_0'', Some ''gs://b/x'')]"
    by simp_all
  note T3 = T [THEN conjunct2, THEN conjunct2, THEN mp, OF r]
  have 1: "split_pair (''k'' @ CHR ''='' # ''v=w'') ''='' 1 = Inr (Some ''k'', Some ''v=w'')"
    using T [THEN conjunct1, THEN mp, OF k] .
  have 2: "split_pair ''k'' ''='' 1 = Inr (Some ''k'', None)"
    and 3: "split_pair ''k'' ''='' 0 = Inr (None, Some ''k'')"
    using T [THEN conjunct2, THEN conjunct1, THEN mp, OF k] by (rule conjunct1, rule conjunct2)
  have 4: "map (\<lambda>t. (token_key t, token_rest t)) [''A=1=2'', ''B''] = [(''A'', Some ''1=2''), (''B'', None)]"
    using T3 [THEN conjunct2, THEN conjunct1] unfolding fields by (rule sym)
  have 5: "auto_named (auto_prefix (InputFileParamUtil ''in'')) (auto_index (InputFileParamUtil ''in''))
        ([''gs://b/x''] @ []) = [(''INPUT_0'', Some ''gs://b/x'')]"
    using T3 [THEN conjunct2, THEN conjunct2, THEN conjunct2, THEN conjunct1] unfolding fields
    by (rule sym)
  show ?thesis
    by (intro conjI) (rule 1 2 3 r 4 5)+
qed

section \<open>Age parsing\<close>

















section \<open>Splitting a URI into path and basename\<close>

lemma split_at_last_slash:
  "take (rfind_slash_succ p) p = rev (dropWhile (\<lambda>c. c \<noteq> CHR ''/'') (rev p))"
  "drop (rfind_slash_succ p) p = rev (takeWhile (\<lambda>c. c \<noteq> CHR ''/'') (rev p))"
proof -
  let ?P = "\<lambda>c. c \<noteq> CHR ''/''"
  have "rev (takeWhile ?P (rev p) @ dropWhile ?P (rev p)) = p"
    by (simp only: takeWhile_dropWhile_id rev_rev_ident)
  then have p: "p = rev (dropWhile ?P (rev p)) @ rev (takeWhile ?P (rev p))"
    by (simp only: rev_append)
  have len: "length (rev (dropWhile ?P (rev p))) = rfind_slash_succ p"
    unfolding rfind_slash_succ_def
    by (metis length_rev length_append takeWhile_dropWhile_id add_diff_cancel_left')
  show "take (rfind_slash_succ p) p = rev (dropWhile ?P (rev p))"
    by (subst p) (simp only: len [symmetric] append_eq_conv_conj take_all, simp)
  show "drop (rfind_slash_succ p) p = rev (takeWhile ?P (rev p))"
    by (subst p) (simp only: len [symmetric], simp)
qed

lemma basename_no_slash: "CHR ''/'' \<notin> set (os_path_basename p)"
  unfolding os_path_basename_def split_at_last_slash
  by (auto dest: set_takeWhileD)

lemma rstrip_idem: "rstrip cs (rstrip cs s) = rstrip cs s"
  by (simp add: rstrip_def dropWhile_idem)

lemma rstrip_snoc: "c \<in> set cs \<Longrightarrow> rstrip cs (s @ [c]) = rstrip cs s"
  by (simp add: rstrip_def)



lemma directory_fmt_dirname:
  "directory_fmt (os_path_dirname u) = directory_fmt (take (rfind_slash_succ u) u)"
  by (simp add: directory_fmt_def os_path_dirname_def Let_def rstrip_idem)

lemma directory_fmt_ends: "endswith (directory_fmt d) ''/''"
  by (simp add: directory_fmt_def endswith_def suffix_def)

lemma directory_fmt_idem: "directory_fmt (directory_fmt d) = directory_fmt d"
  by (simp add: directory_fmt_def rstrip_snoc rstrip_idem)

lemma rfind_slash_succ_append:
  assumes "CHR ''/'' \<notin> set f" and "d = [] \<or> last d = CHR ''/''"
  shows "rfind_slash_succ (d @ f) = length d"
proof -
  have "takeWhile (\<lambda>c. c \<noteq> CHR ''/'') (rev f @ rev d) = rev f"
  proof (cases d rule: rev_cases)
    case Nil
    with assms(1) show ?thesis by auto
  next
    case (snoc ds c)
    with assms(2) have "c = CHR ''/''" by simp
    with assms(1) snoc show ?thesis
      using takeWhile_first [of "CHR ''/''" "rev f" "rev ds"] by simp
  qed
  then show ?thesis by (simp add: rfind_slash_succ_def)
qed

lemma basename_append:
  "CHR ''/'' \<notin> set f \<Longrightarrow> d = [] \<or> last d = CHR ''/'' \<Longrightarrow> os_path_basename (d @ f) = f"
  by (simp add: os_path_basename_def rfind_slash_succ_append)

lemma uri_parts_of:
  assumes "CHR ''/'' \<notin> set f"
  shows "directory_fmt (os_path_dirname (directory_fmt d @ f)) = directory_fmt d"
    and "os_path_basename (directory_fmt d @ f) = f"
proof -
  have l: "directory_fmt d = [] \<or> last (directory_fmt d) = CHR ''/''"
    by (simp add: directory_fmt_def)
  show "os_path_basename (directory_fmt d @ f) = f"
    using assms l by (rule basename_append)
  show "directory_fmt (os_path_dirname (directory_fmt d @ f)) = directory_fmt d"
    by (simp add: directory_fmt_dirname rfind_slash_succ_append [OF assms l] directory_fmt_idem)
qed


lemma os_path_join_dir:
  "CHR ''/'' \<notin> set f \<Longrightarrow> os_path_join (directory_fmt d) f = directory_fmt d @ f"
  using directory_fmt_ends [of d]
  by (cases f) (auto simp: os_path_join_def startswith_def)

lemma local_uri_rewriter_normalized:
  "local_uri_rewriter env raw_uri = Inr (n, dp) \<Longrightarrow>
   \<exists>d. n = directory_fmt d @ os_path_basename raw_uri"
  by (auto simp: local_uri_rewriter_def os_path_split_def Let_def
        os_path_join_dir [OF basename_no_slash] split: sum.splits)

lemma rewrite_uris_gcs:
  "rewrite_uris env util raw_uri P_GCS = Inr (n, dp) \<Longrightarrow> n = raw_uri"
  by (auto simp: rewrite_uris_def gcs_uri_rewriter_def)

lemma rewrite_uris_local:
  "rewrite_uris env util raw_uri P_LOCAL = Inr (n, dp) \<Longrightarrow>
   \<exists>d. n = directory_fmt d @ os_path_basename raw_uri"
  by (auto simp: rewrite_uris_def split: sum.splits dest: local_uri_rewriter_normalized)

lemma parse_uri_Inr:
  "parse_uri env util raw_uri recursive = Inr (docker, parts, provider) \<Longrightarrow>
   \<exists>normalized.
     parse_file_provider (if recursive then directory_fmt raw_uri else raw_uri) = Inr provider
     \<and> validate_paths_or_fail (if recursive then directory_fmt raw_uri else raw_uri) recursive = Inr ()
     \<and> rewrite_uris env util (if recursive then directory_fmt raw_uri else raw_uri) provider
          = Inr (normalized, docker)
     \<and> parts = \<lparr>path = directory_fmt (os_path_dirname normalized),
                  basename = os_path_basename normalized\<rparr>"
  by (auto simp: parse_uri_def Let_def split: sum.splits if_splits)




section \<open>The logging parameter\<close>

lemma parse_uri_basename:
  assumes "parse_uri env util raw_uri recursive = Inr (docker, parts, provider)"
  shows "basename parts = os_path_basename (if recursive then directory_fmt raw_uri else raw_uri)"
proof -
  let ?raw = "if recursive then directory_fmt raw_uri else raw_uri"
  from parse_uri_Inr [OF assms] obtain normalized where
    rw: "rewrite_uris env util ?raw provider = Inr (normalized, docker)"
    and parts: "parts = \<lparr>path = directory_fmt (os_path_dirname normalized),
                  basename = os_path_basename normalized\<rparr>"
    by blast
  have "os_path_basename normalized = os_path_basename ?raw"
  proof (cases provider)
    case P_GCS
    with rw rewrite_uris_gcs show ?thesis by blast
  next
    case P_LOCAL
    with rw obtain d where "normalized = directory_fmt d @ os_path_basename ?raw"
      using rewrite_uris_local by blast
    then show ?thesis
      using uri_parts_of(2) [OF basename_no_slash, of d ?raw] by simp
  qed
  then show ?thesis by (simp add: parts)
qed

lemma basename_directory_fmt: "os_path_basename (directory_fmt d) = []"
  using basename_append [of "[]" "directory_fmt d"] by (simp add: directory_fmt_def)

lemma parse_uri_recursive_basename:
  "parse_uri env util raw_uri True = Inr (docker, parts, provider) \<Longrightarrow> basename parts = []"
  using parse_uri_basename [of env util raw_uri True docker parts provider]
  by (simp add: basename_directory_fmt)

lemma parse_uri_file_basename:
  assumes "parse_uri env util raw_uri False = Inr (docker, parts, provider)"
  shows "basename parts \<noteq> []"
proof -
  from parse_uri_Inr [OF assms] have "validate_paths_or_fail raw_uri False = Inr ()"
    by auto
  then have "os_path_basename raw_uri \<noteq> []"
    by (auto simp: validate_paths_or_fail_def os_path_split_def Let_def split: if_splits)
  with parse_uri_basename [OF assms] show ?thesis by simp
qed

lemma parse_uri_path_ends:
  "parse_uri env util raw_uri recursive = Inr (docker, parts, provider) \<Longrightarrow> endswith (path parts) ''/''"
  by (auto dest!: parse_uri_Inr simp: directory_fmt_ends)

text \<open>
  C7. An absent or empty logging URI gives a \<open>LoggingParam\<close> with no URI and no provider.
  A non-empty URI is resolved by \<open>parse_uri\<close> as not recursive exactly when it ends in
  \<open>.log\<close>, and as recursive otherwise, and the call fails when the basename of the resolved
  URI holds an asterisk. So a URI that does not end in \<open>.log\<close> resolves to a directory (an
  empty basename after a path that ends in a slash), and a URI that ends in \<open>.log\<close> resolves
  to a file whose basename is not empty and holds no asterisk.
\<close>

theorem build_logging_param_cases:
  "build_logging_param env None util_class = Inr \<lparr>log_uri = None, log_file_provider = None\<rparr>
   \<and> build_logging_param env (Some []) util_class = Inr \<lparr>log_uri = None, log_file_provider = None\<rparr>
   \<and> (lu \<noteq> [] \<longrightarrow>
        build_logging_param env (Some lu) OutputFileParamUtil =
          (case parse_uri env (OutputFileParamUtil []) lu (\<not> endswith lu ''.log'') of
             Inl e \<Rightarrow> Inl e
           | Inr (d, u, p) \<Rightarrow>
               if CHR ''*'' \<in> set (basename u) then Inl (ValueError (LoggingWildcard (uri_str u)))
               else Inr \<lparr>log_uri = Some u, log_file_provider = Some p\<rparr>))
   \<and> (lu \<noteq> [] \<longrightarrow> \<not> endswith lu ''.log'' \<longrightarrow>
        build_logging_param env (Some lu) OutputFileParamUtil = Inr lp \<longrightarrow>
        (\<exists>u. log_uri lp = Some u \<and> basename u = [] \<and> endswith (path u) ''/''))
   \<and> (endswith lu ''.log'' \<longrightarrow>
        build_logging_param env (Some lu) OutputFileParamUtil = Inr lp \<longrightarrow>
        (\<exists>u. log_uri lp = Some u \<and> basename u \<noteq> [] \<and> CHR ''*'' \<notin> set (basename u)))
   \<and> (endswith lu ''.log'' \<longrightarrow>
        parse_uri env (OutputFileParamUtil []) lu False = Inr (d, u, p) \<longrightarrow>
        CHR ''*'' \<in> set (basename u) \<longrightarrow>
        build_logging_param env (Some lu) OutputFileParamUtil =
          Inl (ValueError (LoggingWildcard (uri_str u))))"
proof (intro conjI impI)
  show "build_logging_param env None util_class = Inr \<lparr>log_uri = None, log_file_provider = None\<rparr>"
    by (simp add: build_logging_param_def)
next
  show "build_logging_param env (Some []) util_class =
      Inr \<lparr>log_uri = None, log_file_provider = None\<rparr>"
    by (simp add: build_logging_param_def)
next
  assume "lu \<noteq> []"
  then show "build_logging_param env (Some lu) OutputFileParamUtil =
          (case parse_uri env (OutputFileParamUtil []) lu (\<not> endswith lu ''.log'') of
             Inl e \<Rightarrow> Inl e
           | Inr (d, u, p) \<Rightarrow>
               if CHR ''*'' \<in> set (basename u) then Inl (ValueError (LoggingWildcard (uri_str u)))
               else Inr \<lparr>log_uri = Some u, log_file_provider = Some p\<rparr>)"
    by (simp add: build_logging_param_def Let_def)
next
  assume "lu \<noteq> []" and "\<not> endswith lu ''.log''"
    and "build_logging_param env (Some lu) OutputFileParamUtil = Inr lp"
  then obtain d u p where pu: "parse_uri env (OutputFileParamUtil []) lu True = Inr (d, u, p)"
    and lp: "lp = \<lparr>log_uri = Some u, log_file_provider = Some p\<rparr>"
    by (auto simp: build_logging_param_def Let_def split: sum.splits if_splits)
  from parse_uri_recursive_basename [OF pu] parse_uri_path_ends [OF pu] lp
  show "\<exists>u. log_uri lp = Some u \<and> basename u = [] \<and> endswith (path u) ''/''"
    by simp
next
  assume e: "endswith lu ''.log''"
    and "build_logging_param env (Some lu) OutputFileParamUtil = Inr lp"
  moreover from e have "lu \<noteq> []"
    by (auto simp: endswith_def)
  ultimately obtain d u p where pu: "parse_uri env (OutputFileParamUtil []) lu False = Inr (d, u, p)"
    and star: "CHR ''*'' \<notin> set (basename u)"
    and lp: "lp = \<lparr>log_uri = Some u, log_file_provider = Some p\<rparr>"
    by (auto simp: build_logging_param_def Let_def split: sum.splits if_splits)
  from parse_uri_file_basename [OF pu] star lp
  show "\<exists>u. log_uri lp = Some u \<and> basename u \<noteq> [] \<and> CHR ''*'' \<notin> set (basename u)"
    by simp
next
  assume e: "endswith lu ''.log''"
    and "parse_uri env (OutputFileParamUtil []) lu False = Inr (d, u, p)"
    and "CHR ''*'' \<in> set (basename u)"
  moreover from e have "lu \<noteq> []"
    by (auto simp: endswith_def)
  ultimately show "build_logging_param env (Some lu) OutputFileParamUtil =
          Inl (ValueError (LoggingWildcard (uri_str u)))"
    by (simp add: build_logging_param_def Let_def)
qed

theorem build_logging_param_cases_witness:
  "build_logging_param \<lparr>HOME = None, getcwd = ''/work''\<rparr> (Some ''gs://b/logs'') OutputFileParamUtil =
     Inr \<lparr>log_uri = Some \<lparr>path = ''gs://b/logs/'', basename = []\<rparr>, log_file_provider = Some P_GCS\<rparr>
   \<and> (\<exists>u. log_uri \<lparr>log_uri = Some \<lparr>path = ''gs://b/logs/'', basename = []\<rparr>,
               log_file_provider = Some P_GCS\<rparr> = Some u
          \<and> basename u = [] \<and> endswith (path u) ''/'')
   \<and> build_logging_param \<lparr>HOME = None, getcwd = ''/work''\<rparr> (Some ''gs://b/x.log'') OutputFileParamUtil =
     Inr \<lparr>log_uri = Some \<lparr>path = ''gs://b/'', basename = ''x.log''\<rparr>, log_file_provider = Some P_GCS\<rparr>
   \<and> (\<exists>u. log_uri \<lparr>log_uri = Some \<lparr>path = ''gs://b/'', basename = ''x.log''\<rparr>,
               log_file_provider = Some P_GCS\<rparr> = Some u
          \<and> basename u \<noteq> [] \<and> CHR ''*'' \<notin> set (basename u))
   \<and> build_logging_param \<lparr>HOME = None, getcwd = ''/work''\<rparr> (Some ''gs://b/*.log'') OutputFileParamUtil =
     Inl (ValueError (LoggingWildcard (uri_str \<lparr>path = ''gs://b/'', basename = ''*.log''\<rparr>)))"
proof -
  let ?env = "\<lparr>HOME = None, getcwd = ''/work''\<rparr>"
  let ?dir = "\<lparr>log_uri = Some \<lparr>path = ''gs://b/logs/'', basename = []\<rparr>, log_file_provider = Some P_GCS\<rparr>"
  let ?file = "\<lparr>log_uri = Some \<lparr>path = ''gs://b/'', basename = ''x.log''\<rparr>, log_file_provider = Some P_GCS\<rparr>"
  have ne: "''gs://b/logs'' \<noteq> []" and nlog: "\<not> endswith ''gs://b/logs'' ''.log''"
    and log: "endswith ''gs://b/x.log'' ''.log''" and slog: "endswith ''gs://b/*.log'' ''.log''"
    by code_simp+
  have r1: "build_logging_param ?env (Some ''gs://b/logs'') OutputFileParamUtil = Inr ?dir"
    and r2: "build_logging_param ?env (Some ''gs://b/x.log'') OutputFileParamUtil = Inr ?file"
    and pu: "parse_uri ?env (OutputFileParamUtil []) ''gs://b/*.log'' False =
        Inr (''gs/b/*.log'', \<lparr>path = ''gs://b/'', basename = ''*.log''\<rparr>, P_GCS)"
    and star: "CHR ''*'' \<in> set (basename \<lparr>path = ''gs://b/'', basename = ''*.log''\<rparr>)"
    by code_simp+
  note T1 = build_logging_param_cases [of ?env _ "''gs://b/logs''" ?dir]
  note T2 = build_logging_param_cases [of ?env _ "''gs://b/x.log''" ?file]
  note T3 = build_logging_param_cases [of ?env _ "''gs://b/*.log''" _ "''gs/b/*.log''"
      "\<lparr>path = ''gs://b/'', basename = ''*.log''\<rparr>" P_GCS]
  have 1: "\<exists>u. log_uri ?dir = Some u \<and> basename u = [] \<and> endswith (path u) ''/''"
    using T1 [THEN conjunct2, THEN conjunct2, THEN conjunct2, THEN conjunct1, THEN mp, OF ne,
        THEN mp, OF nlog, THEN mp, OF r1] .
  have 2: "\<exists>u. log_uri ?file = Some u \<and> basename u \<noteq> [] \<and> CHR ''*'' \<notin> set (basename u)"
    using T2 [THEN conjunct2, THEN conjunct2, THEN conjunct2, THEN conjunct2, THEN conjunct1,
        THEN mp, OF log, THEN mp, OF r2] .
  have 3: "build_logging_param ?env (Some ''gs://b/*.log'') OutputFileParamUtil =
     Inl (ValueError (LoggingWildcard (uri_str \<lparr>path = ''gs://b/'', basename = ''*.log''\<rparr>)))"
    using T3 [THEN conjunct2, THEN conjunct2, THEN conjunct2, THEN conjunct2, THEN conjunct2,
        THEN mp, OF slog, THEN mp, OF pu, THEN mp, OF star] .
  show ?thesis
    by (intro conjI) (rule r1 1 r2 2 3)+
qed

section \<open>The docker path of a local URI\<close>

lemma contains_sublist: "contains sub s \<longleftrightarrow> sublist sub s"
  by (induction s) (auto simp: sublist_Cons_right)

lemma contains_mono: "sublist t s \<Longrightarrow> contains sub t \<Longrightarrow> contains sub s"
  unfolding contains_sublist by (rule sublist_order.order_trans)

lemma re_sub_dotdot_match:
  "prefix ''..'' cs \<Longrightarrow>
   re_sub_literal ''/..'' ''/_dotdot_'' (CHR ''/'' # cs) =
     ''/_dotdot_'' @ re_sub_literal ''/..'' ''/_dotdot_'' (drop 2 cs)"
  by (simp add: numeral_2_eq_2)

lemma re_sub_dotdot_skip:
  "\<not> (c = CHR ''/'' \<and> prefix ''..'' cs) \<Longrightarrow>
   re_sub_literal ''/..'' ''/_dotdot_'' (c # cs) = c # re_sub_literal ''/..'' ''/_dotdot_'' cs"
  by auto

lemma re_sub_dotdot_hd:
  "re_sub_literal ''/..'' ''/_dotdot_'' s = x # xs \<Longrightarrow> \<exists>cs. s = x # cs"
proof (cases s)
  case Nil
  then show "re_sub_literal ''/..'' ''/_dotdot_'' s = x # xs \<Longrightarrow> \<exists>cs. s = x # cs" by simp
next
  case (Cons c cs)
  assume a: "re_sub_literal ''/..'' ''/_dotdot_'' s = x # xs"
  show "\<exists>cs. s = x # cs"
  proof (cases "c = CHR ''/'' \<and> prefix ''..'' cs")
    case True
    with a Cons show ?thesis by (simp add: re_sub_dotdot_match del: re_sub_literal.simps)
  next
    case False
    with a Cons show ?thesis by (simp add: re_sub_dotdot_skip del: re_sub_literal.simps)
  qed
qed

lemma re_sub_dotdot_prefix:
  assumes "prefix ''..'' (re_sub_literal ''/..'' ''/_dotdot_'' s)"
  shows "prefix ''..'' s"
proof -
  from assms obtain r where r: "re_sub_literal ''/..'' ''/_dotdot_'' s = CHR ''.'' # CHR ''.'' # r"
    by (auto simp: prefix_def)
  from re_sub_dotdot_hd [OF r] obtain cs where s: "s = CHR ''.'' # cs" by blast
  have "re_sub_literal ''/..'' ''/_dotdot_'' s = CHR ''.'' # re_sub_literal ''/..'' ''/_dotdot_'' cs"
    unfolding s by (rule re_sub_dotdot_skip) simp
  with r have "re_sub_literal ''/..'' ''/_dotdot_'' cs = CHR ''.'' # r" by simp
  from re_sub_dotdot_hd [OF this] obtain cs' where "cs = CHR ''.'' # cs'" by blast
  with s show ?thesis by simp
qed

lemma contains_dotdot_repl: "contains ''/..'' (''/_dotdot_'' @ t) = contains ''/..'' t"
  by (cases t) simp_all

lemma re_sub_dotdot_clean: "\<not> contains ''/..'' (re_sub_literal ''/..'' ''/_dotdot_'' s)"
proof (induction s rule: length_induct)
  case (1 s)
  show ?case
  proof (cases s)
    case Nil
    then show ?thesis by simp
  next
    case (Cons c cs)
    show ?thesis
    proof (cases "c = CHR ''/'' \<and> prefix ''..'' cs")
      case True
      have "length (drop 2 cs) < length s"
        using Cons by simp
      with 1 have "\<not> contains ''/..'' (re_sub_literal ''/..'' ''/_dotdot_'' (drop 2 cs))"
        by blast
      then show ?thesis
        using True by (simp add: Cons re_sub_dotdot_match contains_dotdot_repl del: re_sub_literal.simps)
    next
      case False
      have "length cs < length s"
        using Cons by simp
      with 1 have ih: "\<not> contains ''/..'' (re_sub_literal ''/..'' ''/_dotdot_'' cs)"
        by blast
      have "\<not> prefix ''/..'' (c # re_sub_literal ''/..'' ''/_dotdot_'' cs)"
        using False re_sub_dotdot_prefix [of cs] by auto
      with ih show ?thesis
        by (simp only: Cons re_sub_dotdot_skip [OF False] contains.simps simp_thms)
    qed
  qed
qed

lemma startswith_split: "startswith s p \<Longrightarrow> s = p @ drop (length p) s"
  by (auto simp: startswith_def prefix_def)

lemma anchored_dotdot_clean:
  assumes "\<not> contains ''/..'' s"
  shows "\<not> contains ''/..'' (re_sub (Anchored ''..'') ''_dotdot_'' s)"
proof (cases "startswith s ''..''")
  case False
  with assms show ?thesis by simp
next
  case True
  define t where "t = drop (length ''..'') s"
  from startswith_split [OF True] have s: "s = ''..'' @ t" by (simp add: t_def)
  have "contains ''/..'' (''_dotdot_'' @ t) = contains ''/..'' t"
    by (cases t) simp_all
  moreover have "contains ''/..'' (''..'' @ t) = contains ''/..'' t"
    by (cases t) simp_all
  ultimately show ?thesis
    using assms True unfolding s by (simp add: startswith_def)
qed

lemma anchored_home_clean:
  assumes "\<not> contains ''/..'' s"
  shows "\<not> contains ''/..'' (re_sub (Anchored ''~/'') ''_home_/'' s)"
proof (cases "startswith s ''~/''")
  case False
  with assms show ?thesis by simp
next
  case True
  define t where "t = drop (length ''~/'') s"
  from startswith_split [OF True] have s: "s = ''~/'' @ t" by (simp add: t_def)
  have "contains ''/..'' (''_home_/'' @ t) = (prefix ''..'' t \<or> contains ''/..'' t)"
    by (cases t) auto
  moreover have "contains ''/..'' (''~/'' @ t) = (prefix ''..'' t \<or> contains ''/..'' t)"
    by (cases t) auto
  ultimately show ?thesis
    using assms True unfolding s by (simp add: startswith_def)
qed

lemma anchored_file_clean:
  assumes "\<not> contains ''/..'' s"
  shows "\<not> contains ''/..'' (re_sub (Anchored ''file:/'') [] s)"
proof (cases "startswith s ''file:/''")
  case False
  with assms show ?thesis by simp
next
  case True
  have "sublist (drop (length ''file:/'') s) s" by (rule sublist_drop)
  with assms contains_mono have "\<not> contains ''/..'' (drop (length ''file:/'') s)" by blast
  with True show ?thesis by simp
qed

lemma docker_rewrites_clean:
  "\<not> contains ''/..'' (foldl (\<lambda>d (pat, repl). re_sub pat repl d) p docker_rewrites)"
proof -
  have "foldl (\<lambda>d (pat, repl). re_sub pat repl d) p docker_rewrites =
      re_sub (Anchored ''file:/'') []
        (re_sub (Anchored ''~/'') ''_home_/''
          (re_sub (Anchored ''..'') ''_dotdot_'' (re_sub_literal ''/..'' ''/_dotdot_'' p)))"
    by (simp add: docker_rewrites_def del: re_sub.simps re_sub_literal.simps)
      (simp del: re_sub_literal.simps)
  moreover have "\<not> contains ''/..''
      (re_sub (Anchored ''file:/'') []
        (re_sub (Anchored ''~/'') ''_home_/''
          (re_sub (Anchored ''..'') ''_dotdot_'' (re_sub_literal ''/..'' ''/_dotdot_'' p))))"
    by (intro anchored_file_clean anchored_home_clean anchored_dotdot_clean re_sub_dotdot_clean)
  ultimately show ?thesis
    by simp
qed

lemma lstrip_clean:
  assumes "\<not> contains ''/..'' s"
  shows "\<not> contains ''/..'' (lstrip ''./'' s)"
    and "\<not> prefix ''.'' (lstrip ''./'' s)" and "\<not> prefix ''/'' (lstrip ''./'' s)"
proof -
  have "sublist (lstrip ''./'' s) s"
    unfolding lstrip_def by (rule sublist_dropWhile)
  with assms contains_mono show "\<not> contains ''/..'' (lstrip ''./'' s)" by blast
  have "lstrip ''./'' s = [] \<or> hd (lstrip ''./'' s) \<notin> set ''./''"
    unfolding lstrip_def using hd_dropWhile [of "\<lambda>c. c \<in> set ''./''" s] by blast
  then show "\<not> prefix ''.'' (lstrip ''./'' s)" and "\<not> prefix ''/'' (lstrip ''./'' s)"
    by (auto simp: prefix_def)
qed

lemma rstrip_prefix: "prefix (rstrip cs s) s"
proof -
  have "rev (takeWhile (\<lambda>c. c \<in> set cs) (rev s) @ dropWhile (\<lambda>c. c \<in> set cs) (rev s)) = s"
    by (simp only: takeWhile_dropWhile_id rev_rev_ident)
  then have "s = rstrip cs s @ rev (takeWhile (\<lambda>c. c \<in> set cs) (rev s))"
    by (simp only: rev_append rstrip_def)
  then show ?thesis by (metis prefixI)
qed

lemma rstrip_append_keep:
  assumes "a \<noteq> []" and "last a \<notin> set cs"
  shows "rstrip cs (a @ b) = a @ rstrip cs b"
proof -
  have "dropWhile (\<lambda>c. c \<in> set cs) (rev a) = rev a"
    using assms by (cases a rule: rev_cases) auto
  then show ?thesis
    by (simp add: rstrip_def dropWhile_append)
qed

lemma split_char_nonempty: "split_char d s \<noteq> []"
  by (induction s) auto

lemma split_char_append:
  "split_char d (a @ d # b) = split_char d a @ split_char d b"
  by (induction a) (auto simp: split_char_nonempty)

lemma split_char_none: "d \<notin> set f \<Longrightarrow> split_char d f = [f]"
  by (induction f) auto

lemma hd_split_char: "hd (split_char d s) = takeWhile (\<lambda>c. c \<noteq> d) s"
  by (induction s) auto

lemma takeWhile_prefix: "prefix (takeWhile P s) s"
  by (metis prefixI takeWhile_dropWhile_id)

lemma dotdot_in_tl:
  "''..'' \<in> set (tl (split_char CHR ''/'' s)) \<Longrightarrow> contains ''/..'' s"
proof (induction s)
  case Nil
  then show ?case by simp
next
  case (Cons c cs)
  show ?case
  proof (cases "c = CHR ''/''")
    case False
    with Cons show ?thesis by simp
  next
    case True
    with Cons.prems have "''..'' \<in> set (split_char CHR ''/'' cs)" by simp
    then have "hd (split_char CHR ''/'' cs) = ''..'' \<or> ''..'' \<in> set (tl (split_char CHR ''/'' cs))"
      using split_char_nonempty [of "CHR ''/''" cs] by (cases "split_char CHR ''/'' cs") auto
    then show ?thesis
    proof
      assume "hd (split_char CHR ''/'' cs) = ''..''"
      then have "prefix ''..'' cs"
        using takeWhile_prefix [of "\<lambda>c. c \<noteq> CHR ''/''" cs] by (simp add: hd_split_char)
      with True show ?thesis by simp
    next
      assume "''..'' \<in> set (tl (split_char CHR ''/'' cs))"
      with Cons.IH show ?thesis by simp
    qed
  qed
qed

lemma dotdot_component:
  assumes "''..'' \<in> set (split_char CHR ''/'' s)"
  shows "prefix ''..'' s \<or> contains ''/..'' s"
proof -
  from assms have "hd (split_char CHR ''/'' s) = ''..'' \<or> ''..'' \<in> set (tl (split_char CHR ''/'' s))"
    using split_char_nonempty [of "CHR ''/''" s] by (cases "split_char CHR ''/'' s") auto
  then show ?thesis
  proof
    assume "hd (split_char CHR ''/'' s) = ''..''"
    then show ?thesis
      using takeWhile_prefix [of "\<lambda>c. c \<noteq> CHR ''/''" s] by (simp add: hd_split_char)
  next
    assume "''..'' \<in> set (tl (split_char CHR ''/'' s))"
    then show ?thesis by (simp add: dotdot_in_tl)
  qed
qed

text \<open>
  The docker path built from a rewritten directory \<open>x\<close> and a file name \<open>f\<close>: it starts with
  \<open>file/\<close>, and none of its components is \<open>..\<close>.
\<close>

lemma docker_path_shape:
  assumes x: "\<not> contains ''/..'' x" "\<not> prefix ''.'' x" "\<not> prefix ''/'' x"
    and f: "CHR ''/'' \<notin> set f" "f \<noteq> ''..''"
  shows "startswith (directory_fmt (''file/'' @ x) @ f) ''file/''"
    and "''..'' \<notin> set (split_char CHR ''/'' (directory_fmt (''file/'' @ x) @ f))"
proof -
  define z where "z = rstrip ''/'' (CHR ''/'' # x)"
  have "rstrip ''/'' (''file'' @ CHR ''/'' # x) = ''file'' @ z"
    unfolding z_def by (rule rstrip_append_keep) simp_all
  then have dir: "directory_fmt (''file/'' @ x) @ f = (''file'' @ z) @ CHR ''/'' # f"
    by (simp add: directory_fmt_def)
  have zp: "prefix z (CHR ''/'' # x)"
    unfolding z_def by (rule rstrip_prefix)
  then have "z = [] \<or> hd z = CHR ''/''"
    by (cases z) auto
  then show "startswith (directory_fmt (''file/'' @ x) @ f) ''file/''"
    unfolding dir by (cases z) (auto simp: startswith_def)
  have "\<not> contains ''/..'' (CHR ''/'' # x)"
    using x by (cases x) auto
  moreover have "sublist z (CHR ''/'' # x)"
    using zp by (rule prefix_imp_sublist)
  ultimately have "\<not> contains ''/..'' z"
    using contains_mono by blast
  then have "\<not> contains ''/..'' (''file'' @ z)"
    by (cases z) auto
  moreover have "\<not> prefix ''..'' (''file'' @ z)"
    by simp
  ultimately have "''..'' \<notin> set (split_char CHR ''/'' (''file'' @ z))"
    using dotdot_component by blast
  moreover have "split_char CHR ''/'' f = [f]"
    using f(1) by (rule split_char_none)
  ultimately show "''..'' \<notin> set (split_char CHR ''/'' (directory_fmt (''file/'' @ x) @ f))"
    unfolding dir using f(2) by (simp only: split_char_append set_append) auto
qed

lemma apply_prefix_replacements_total:
  "\<exists>p'. apply_prefix_replacements
          [(''file:///'', Some ''/''), (''~/'', Some h), (''./'', Some []), (''file:/'', Some ''/'')] p
        = Inr p'"
  by (simp add: Let_def)

text \<open>
  C2, as amended. For every local URI that passes the path policy check, the docker path
  that \<open>_local_uri_rewriter\<close> produces (before the mount prefix is joined) starts with the
  literal \<open>file/\<close>, and none of its path components, the file name included, is \<open>..\<close>. The
  rewriter produces a result whenever \<open>HOME\<close> is set.
\<close>

theorem local_docker_path_shape:
  "(validate_paths_or_fail raw_uri recursive = Inr () \<longrightarrow>
    local_uri_rewriter env raw_uri = Inr (normed_uri, docker_path) \<longrightarrow>
      startswith docker_path ''file/'' \<and> ''..'' \<notin> set (split_char CHR ''/'' docker_path))
   \<and> (HOME env \<noteq> None \<longrightarrow> \<not> isl (local_uri_rewriter env raw_uri))"
proof (intro conjI impI)
  assume v: "validate_paths_or_fail raw_uri recursive = Inr ()"
    and r: "local_uri_rewriter env raw_uri = Inr (normed_uri, docker_path)"
  define x where
    "x = lstrip ''./'' (foldl (\<lambda>d (pat, repl). re_sub pat repl d)
           (os_path_normpath (os_path_dirname raw_uri)) docker_rewrites)"
  from r have dp: "docker_path = directory_fmt (''file/'' @ x) @ os_path_basename raw_uri"
    by (auto simp: local_uri_rewriter_def os_path_split_def Let_def x_def split: sum.splits)
  from v have f: "os_path_basename raw_uri \<noteq> ''..''"
    by (auto simp: validate_paths_or_fail_def os_path_split_def Let_def split: if_splits)
  have x: "\<not> contains ''/..'' x" "\<not> prefix ''.'' x" "\<not> prefix ''/'' x"
    unfolding x_def by (rule lstrip_clean [OF docker_rewrites_clean])+
  show "startswith docker_path ''file/''"
    unfolding dp using x basename_no_slash f by (rule docker_path_shape)
  show "''..'' \<notin> set (split_char CHR ''/'' docker_path)"
    unfolding dp using x basename_no_slash f by (rule docker_path_shape)
next
  assume "HOME env \<noteq> None"
  then obtain h where h: "HOME env = Some h" by auto
  obtain p' where "apply_prefix_replacements (prefix_replacements env) (os_path_dirname raw_uri)
      = Inr p'"
    unfolding prefix_replacements_def h using apply_prefix_replacements_total by blast
  then show "\<not> isl (local_uri_rewriter env raw_uri)"
    by (simp add: local_uri_rewriter_def os_path_split_def Let_def)
qed

theorem local_docker_path_shape_witness:
  "local_uri_rewriter \<lparr>HOME = Some ''/home/u'', getcwd = ''/work''\<rparr> ''./../upper_dir/x.txt'' =
     Inr (''/upper_dir/x.txt'', ''file/_dotdot_/upper_dir/x.txt'')
   \<and> startswith ''file/_dotdot_/upper_dir/x.txt'' ''file/''
   \<and> ''..'' \<notin> set (split_char CHR ''/'' ''file/_dotdot_/upper_dir/x.txt'')
   \<and> \<not> isl (local_uri_rewriter \<lparr>HOME = Some ''/home/u'', getcwd = ''/work''\<rparr> ''./../upper_dir/x.txt'')"
proof -
  let ?env = "\<lparr>HOME = Some ''/home/u'', getcwd = ''/work''\<rparr>"
  have v: "validate_paths_or_fail ''./../upper_dir/x.txt'' False = Inr ()"
    and r: "local_uri_rewriter ?env ''./../upper_dir/x.txt'' =
      Inr (''/upper_dir/x.txt'', ''file/_dotdot_/upper_dir/x.txt'')"
    by code_simp+
  have h: "HOME ?env \<noteq> None"
    by simp
  note T = local_docker_path_shape [of "''./../upper_dir/x.txt''" False ?env
      "''/upper_dir/x.txt''" "''file/_dotdot_/upper_dir/x.txt''"]
  note T1 = T [THEN conjunct1, THEN mp, OF v, THEN mp, OF r]
  note T2 = T [THEN conjunct2, THEN mp, OF h]
  show ?thesis
    by (intro conjI) (rule r T1 [THEN conjunct1] T1 [THEN conjunct2] T2)+
qed

text \<open>
  The claim as first stated fails on the code: two dots inside a name are kept, in the file
  name (\<open>data/a..b.txt\<close>) and in a directory name (\<open>v1..2/x\<close>) alike; both URIs are local and
  pass the path policy check.
\<close>

theorem local_docker_path_shape_counterexample:
  "parse_file_provider ''data/a..b.txt'' = Inr P_LOCAL
   \<and> validate_paths_or_fail ''data/a..b.txt'' False = Inr ()
   \<and> local_uri_rewriter \<lparr>HOME = Some ''/home/u'', getcwd = ''/work''\<rparr> ''data/a..b.txt'' =
       Inr (''/work/data/a..b.txt'', ''file/data/a..b.txt'')
   \<and> contains ''..'' ''file/data/a..b.txt''
   \<and> parse_file_provider ''v1..2/x'' = Inr P_LOCAL
   \<and> validate_paths_or_fail ''v1..2/x'' False = Inr ()
   \<and> local_uri_rewriter \<lparr>HOME = Some ''/home/u'', getcwd = ''/work''\<rparr> ''v1..2/x'' =
       Inr (''/work/v1..2/x'', ''file/v1..2/x'')
   \<and> contains ''..'' ''file/v1..2/x''"
  by code_simp

end
